theory Spec2Isabelle
  imports Complex_Main "HOL-Library.Word"
begin

section \<open>JavaScript strings\<close>

text \<open>
  A JavaScript string is a sequence of UTF-16 code units; \<open>length\<close>, \<open>slice\<close>,
  \<open>indexOf\<close> and \<open>lastIndexOf\<close> all count code units.
\<close>

type_synonym code_unit = "16 word"
type_synonym jsstring = "code_unit list"

definition js :: "string \<Rightarrow> jsstring" where
  "js s = map (\<lambda>c. word_of_nat (of_char c)) s"

text \<open>
  The class \<open>\s\<close> of a regular expression and the characters removed by \<open>trim()\<close> are
  the same set: WhiteSpace and LineTerminator of ECMAScript (tab, LF, VT, FF, CR, space,
  NBSP, U+1680, U+2000..U+200A, U+2028, U+2029, U+202F, U+205F, U+3000, U+FEFF).
\<close>

definition is_space :: "code_unit \<Rightarrow> bool" where
  "is_space c \<longleftrightarrow> (9 \<le> c \<and> c \<le> 13) \<or> c = 32 \<or> c = 160 \<or> c = 5760
     \<or> (8192 \<le> c \<and> c \<le> 8202) \<or> c = 8232 \<or> c = 8233 \<or> c = 8239 \<or> c = 8287
     \<or> c = 12288 \<or> c = 65279"

definition is_newline :: "code_unit \<Rightarrow> bool" where
  "is_newline c \<longleftrightarrow> c = 10"

text \<open>
  \<open>s.replace(/[class]+/g, r)\<close>: every maximal run of characters of the class is replaced
  by the single character \<open>r\<close>.
\<close>

function replace_runs :: "('a \<Rightarrow> bool) \<Rightarrow> 'a \<Rightarrow> 'a list \<Rightarrow> 'a list" where
  "replace_runs p r [] = []"
| "replace_runs p r (c # cs) =
     (if p c then r # replace_runs p r (dropWhile p cs) else c # replace_runs p r cs)"
  by pat_completeness auto
termination
  by (relation "measure (\<lambda>(p, r, cs). length cs)")
     (auto simp: length_dropWhile_le le_imp_less_Suc)

definition trim :: "jsstring \<Rightarrow> jsstring" where
  "trim s = rev (dropWhile is_space (rev (dropWhile is_space s)))"

text \<open>
  \<open>s.lastIndexOf(c, pos)\<close> for a one-character search string: the position is clamped to
  \<open>0 .. length - 1\<close>, the search runs downwards from there, and the result is \<open>-1\<close> when
  the character is not found.
\<close>

fun lastIndexFrom :: "'a \<Rightarrow> 'a list \<Rightarrow> nat \<Rightarrow> int" where
  "lastIndexFrom c s 0 = (if s \<noteq> [] \<and> s ! 0 = c then 0 else - 1)"
| "lastIndexFrom c s (Suc k) =
     (if Suc k < length s \<and> s ! Suc k = c then int (Suc k) else lastIndexFrom c s k)"

definition lastIndexOf :: "'a list \<Rightarrow> 'a \<Rightarrow> int \<Rightarrow> int" where
  "lastIndexOf s c pos =
     (if s = [] then - 1
      else lastIndexFrom c s (nat (min (max pos 0) (int (length s) - 1))))"

text \<open>
  \<open>s.slice(start, end)\<close>: a negative index counts from the end of the string, both
  indices are clamped to \<open>0 .. length\<close>, and the result is empty when they cross.
\<close>

definition slice :: "'a list \<Rightarrow> int \<Rightarrow> int \<Rightarrow> 'a list" where
  "slice s start endp =
     (let len = int (length s);
          from = (if start < 0 then max (len + start) 0 else min start len);
          to = (if endp < 0 then max (len + endp) 0 else min endp len)
      in drop (nat from) (take (nat to) s))"

section \<open>Document processor: text cleaning and the sliding-window chunker\<close>

text \<open>
  The first statement of \<open>splitIntoChunks\<close>:
  \<^verbatim>\<open>text.replace(/\s+/g, ' ').replace(/\n+/g, '\n').trim()\<close>.
\<close>

definition cleanText :: "jsstring \<Rightarrow> jsstring" where
  "cleanText text = trim (replace_runs is_newline 10 (replace_runs is_space 32 text))"

text \<open>
  One pass of the loop body up to the computation of \<open>end\<close>. The chunk size and the
  overlap are integers; the test \<open>breakPoint > start + chunkSize / 2\<close> of the source
  divides exactly, so it is written with both sides doubled.
\<close>

definition chunk_end :: "jsstring \<Rightarrow> int \<Rightarrow> int \<Rightarrow> int" where
  "chunk_end ct chunkSize start =
     (let endp = start + chunkSize in
      if endp < int (length ct) then
        (let lastPeriod = lastIndexOf ct 46 endp;
             lastNewline = lastIndexOf ct 10 endp;
             breakPoint = max lastPeriod lastNewline
         in if 2 * breakPoint > 2 * start + chunkSize then breakPoint + 1 else endp)
      else endp)"

definition push_chunk :: "jsstring list \<Rightarrow> jsstring \<Rightarrow> jsstring list" where
  "push_chunk chunks chunk = (if length chunk > 0 then chunks @ [chunk] else chunks)"

text \<open>
  The \<open>while (start < cleanText.length)\<close> loop. The source has no bound on the number of
  passes, so the loop is a partial function: \<open>None\<close> is a run that never leaves the loop
  (the array of chunks may grow for ever; memory is not bounded here).
  The last argument counts the passes made so far; it is not part of the source and does
  not influence the chunks.
\<close>

partial_function (option) chunk_loop ::
  "jsstring \<Rightarrow> int \<Rightarrow> int \<Rightarrow> int \<Rightarrow> jsstring list \<Rightarrow> nat \<Rightarrow> (jsstring list \<times> nat) option"
where
  "chunk_loop ct chunkSize overlap start chunks passes =
     (if start < int (length ct) then
        chunk_loop ct chunkSize overlap
          (chunk_end ct chunkSize start - overlap)
          (push_chunk chunks (trim (slice ct start (chunk_end ct chunkSize start))))
          (Suc passes)
      else Some (chunks, passes))"

declare chunk_loop.simps [code]

definition splitIntoChunks_run :: "jsstring \<Rightarrow> int \<Rightarrow> int \<Rightarrow> (jsstring list \<times> nat) option" where
  "splitIntoChunks_run text chunkSize overlap =
     (let ct = cleanText text in
      if int (length ct) \<le> chunkSize then Some ([ct], 0)
      else chunk_loop ct chunkSize overlap 0 [] 0)"

definition splitIntoChunks :: "jsstring \<Rightarrow> int \<Rightarrow> int \<Rightarrow> jsstring list option" where
  "splitIntoChunks text chunkSize overlap =
     map_option fst (splitIntoChunks_run text chunkSize overlap)"

definition CHUNK_SIZE :: int where "CHUNK_SIZE = 900"
definition CHUNK_OVERLAP :: int where "CHUNK_OVERLAP = 100"

text \<open>
  The least distance by which one pass of the loop moves \<open>start\<close> forward: a pass
  without a break point moves it by \<open>chunkSize - overlap\<close>, a pass that snaps to a break
  point by at least \<open>chunkSize div 2 + 2 - overlap\<close>.
\<close>

definition min_advance :: "int \<Rightarrow> int \<Rightarrow> int" where
  "min_advance chunkSize overlap = min (chunkSize - overlap) (chunkSize div 2 + 2 - overlap)"

section \<open>RAG pipeline: the paragraph-aggregating chunker\<close>

text \<open>
  \<open>s.split(sep)\<close> for a non-empty separator: the pieces between the occurrences of the
  separator, found from left to right. The second argument is the piece being read.
\<close>

function split :: "'a list \<Rightarrow> 'a list \<Rightarrow> 'a list \<Rightarrow> 'a list list" where
  "split sep cur [] = [cur]"
| "split sep cur (c # cs) =
     (if sep \<noteq> [] \<and> take (length sep) (c # cs) = sep
      then cur # split sep [] (drop (length sep) (c # cs))
      else split sep (cur @ [c]) cs)"
  by pat_completeness auto
termination
  by (relation "measure (\<lambda>(sep, cur, s). length s)") auto

text \<open>\<open>s.indexOf(pat)\<close>: the first position where \<open>pat\<close> occurs in \<open>s\<close>, and \<open>-1\<close>
  when it does not occur.\<close>

fun indexOfFrom :: "'a list \<Rightarrow> 'a list \<Rightarrow> nat \<Rightarrow> int" where
  "indexOfFrom pat [] i = (if pat = [] then int i else - 1)"
| "indexOfFrom pat (c # cs) i =
     (if take (length pat) (c # cs) = pat then int i else indexOfFrom pat cs (Suc i))"

definition indexOf :: "'a list \<Rightarrow> 'a list \<Rightarrow> int" where
  "indexOf s pat = indexOfFrom pat s 0"

fun join :: "'a list \<Rightarrow> 'a list list \<Rightarrow> 'a list" where
  "join sep [] = []"
| "join sep [x] = x"
| "join sep (x # y # ys) = x @ sep @ join sep (y # ys)"

text \<open>The \<open>options\<close> object of \<open>chunkDocument\<close>; \<open>None\<close> is a property that is not set.\<close>

record chunk_options =
  opt_chunkSize :: "int option"
  opt_overlap :: "int option"
  opt_separator :: "jsstring option"

text \<open>A chunk object \<open>{id, content, charStart, charEnd}\<close>.\<close>

record chunk =
  chunk_id :: nat
  content :: jsstring
  charStart :: int
  charEnd :: int

text \<open>\<open>v || d\<close> for a number and for a string: \<open>0\<close> and the empty string are falsy.\<close>

definition num_or :: "int option \<Rightarrow> int \<Rightarrow> int" where
  "num_or v d = (case v of None \<Rightarrow> d | Some n \<Rightarrow> if n = 0 then d else n)"

definition str_or :: "jsstring option \<Rightarrow> jsstring \<Rightarrow> jsstring" where
  "str_or v d = (case v of None \<Rightarrow> d | Some s \<Rightarrow> if s = [] then d else s)"

definition make_chunk :: "jsstring \<Rightarrow> nat \<Rightarrow> jsstring \<Rightarrow> chunk" where
  "make_chunk t chunkIndex currentChunk =
     \<lparr>chunk_id = chunkIndex, content = trim currentChunk,
      charStart = indexOf t currentChunk,
      charEnd = indexOf t currentChunk + int (length currentChunk)\<rparr>"

text \<open>
  The body of \<open>for (const paragraph of paragraphs)\<close>, on the loop state
  \<open>(chunks, currentChunk, chunkIndex)\<close>. \<open>words.slice(-Math.floor(overlap / 5))\<close> is the
  whole array when the floor is \<open>0\<close>.
\<close>

definition chunk_step ::
  "jsstring \<Rightarrow> int \<Rightarrow> int \<Rightarrow> jsstring \<Rightarrow> chunk list \<times> jsstring \<times> nat \<Rightarrow> jsstring
     \<Rightarrow> chunk list \<times> jsstring \<times> nat" where
  "chunk_step t chunkSize overlap separator st paragraph =
     (case st of (chunks, currentChunk, chunkIndex) \<Rightarrow>
        if int (length currentChunk) + int (length paragraph) > chunkSize
           \<and> length currentChunk > 0
        then
          (let words = split [32] [] currentChunk;
               overlapWords = slice words (- (overlap div 5)) (int (length words))
           in (chunks @ [make_chunk t chunkIndex currentChunk],
               join [32] overlapWords @ [32] @ paragraph,
               Suc chunkIndex))
        else (chunks,
              currentChunk @ (if currentChunk \<noteq> [] then separator else []) @ paragraph,
              chunkIndex))"

definition chunkDocument :: "jsstring \<Rightarrow> chunk_options \<Rightarrow> chunk list" where
  "chunkDocument t options =
     (let chunkSize = num_or (opt_chunkSize options) 1000;
          overlap = num_or (opt_overlap options) 200;
          separator = str_or (opt_separator options) [10, 10];
          paragraphs = filter (\<lambda>p. trim p \<noteq> []) (split separator [] t)
      in case foldl (chunk_step t chunkSize overlap separator) ([], [], 0) paragraphs of
           (chunks, currentChunk, chunkIndex) \<Rightarrow>
             if trim currentChunk \<noteq> [] then chunks @ [make_chunk t chunkIndex currentChunk]
             else chunks)"

section \<open>The embedding provider\<close>

type_synonym vector = "real list"

text \<open>
  What one \<open>fetch\<close> of the \<open>embedContent\<close> endpoint comes to. \<open>FetchRejected\<close> is a
  rejected \<open>fetch\<close> or \<open>response.json()\<close>, with the message of the error;
  \<open>StatusNotOk\<close> is a response with \<open>response.ok\<close> false, carrying the body as JSON text
  and \<open>body.error?.message\<close>; \<open>StatusOk\<close> is a response with \<open>response.ok\<close> true,
  carrying what \<open>data.embedding\<close> and \<open>data.embedding.values\<close> are.
\<close>

datatype embedding_json = EmbeddingMissing | ValuesMissing | Values vector

datatype fetch_outcome =
    FetchRejected jsstring
  | StatusNotOk jsstring "jsstring option"
  | StatusOk embedding_json

text \<open>
  The network: \<open>respond k\<close> is the outcome of the request number \<open>k\<close> (counted from 0),
  and the state \<open>sent\<close> is the list of the texts of the requests made so far. One
  \<open>fetch\<close> reads the outcome of the next request and records the request.
\<close>

definition fetch_embedContent ::
  "(nat \<Rightarrow> fetch_outcome) \<Rightarrow> jsstring list \<Rightarrow> jsstring \<Rightarrow> fetch_outcome \<times> jsstring list" where
  "fetch_embedContent respond sent t = (respond (length sent), sent @ [t])"

section \<open>Configuration\<close>

text \<open>The object \<open>ENV\<close> of the configuration module; every value is a string.\<close>

record ENV =
  ENV_SUPABASE_URL :: jsstring
  ENV_SUPABASE_ANON_KEY :: jsstring
  ENV_GEMINI_API_KEY :: jsstring
  ENV_MAPS_API_KEY :: jsstring

datatype service = supabase | gemini | maps | other

fun isConfigured :: "ENV \<Rightarrow> service \<Rightarrow> bool" where
  "isConfigured env supabase \<longleftrightarrow> ENV_SUPABASE_URL env \<noteq> [] \<and> ENV_SUPABASE_ANON_KEY env \<noteq> []"
| "isConfigured env gemini \<longleftrightarrow> ENV_GEMINI_API_KEY env \<noteq> []"
| "isConfigured env maps \<longleftrightarrow> ENV_MAPS_API_KEY env \<noteq> []"
| "isConfigured env other \<longleftrightarrow> False"

text \<open>\<open>process.env\<close>, read by the server-side modules; \<open>None\<close> is a variable that is not
  set, and a variable set to the empty string is falsy as well.\<close>

record process_env =
  GEMINI_API_KEY :: "jsstring option"
  SUPABASE_URL :: "jsstring option"
  SUPABASE_SERVICE_ROLE_KEY :: "jsstring option"

definition truthy :: "jsstring option \<Rightarrow> bool" where
  "truthy v = (case v of None \<Rightarrow> False | Some s \<Rightarrow> s \<noteq> [])"

text \<open>
  \<open>createServiceClient\<close> throws when a variable is missing, and otherwise calls
  \<open>createClient(url, key)\<close> of the database client library, which throws as well for a
  URL that it does not accept. The library is a parameter: \<open>createClient url key\<close> is the
  message of the error that it throws for this URL and key, and \<open>None\<close> when it returns
  a client. The client itself is not modelled.
\<close>

type_synonym client_library = "jsstring \<Rightarrow> jsstring \<Rightarrow> jsstring option"

definition createServiceClient :: "client_library \<Rightarrow> process_env \<Rightarrow> jsstring + unit" where
  "createServiceClient createClient penv =
     (if \<not> truthy (SUPABASE_URL penv) \<or> \<not> truthy (SUPABASE_SERVICE_ROLE_KEY penv)
      then Inl (js ''Missing SUPABASE_URL or SUPABASE_SERVICE_ROLE_KEY'')
      else
        (case createClient (str_or (SUPABASE_URL penv) [])
                (str_or (SUPABASE_SERVICE_ROLE_KEY penv) []) of
           Some msg \<Rightarrow> Inl msg
         | None \<Rightarrow> Inr ()))"

text \<open>
  An instance of the library, used to run the code on examples: it throws for every
  URL that does not start with \<open>http://\<close> or \<open>https://\<close>, as the library does, and
  accepts the others (the library may throw for some of these too, when they are
  malformed; the examples use a well-formed one).
\<close>

definition createClient_http :: client_library where
  "createClient_http url key =
     (if take 7 url = js ''http://'' \<or> take 8 url = js ''https://'' then None
      else Some (js ''Invalid supabaseUrl: Must be a valid HTTP or HTTPS URL.''))"

section \<open>Gemini client: the embedding gateway\<close>

record embedding_result =
  embedding :: "vector option"
  error :: "jsstring option"

text \<open>\<open>data.embedding?.values || null\<close>.\<close>

fun values_or_null :: "embedding_json \<Rightarrow> vector option" where
  "values_or_null (Values v) = Some v"
| "values_or_null ValuesMissing = None"
| "values_or_null EmbeddingMissing = None"

definition generateEmbedding ::
  "ENV \<Rightarrow> (nat \<Rightarrow> fetch_outcome) \<Rightarrow> jsstring list \<Rightarrow> jsstring
     \<Rightarrow> embedding_result \<times> jsstring list" where
  "generateEmbedding env respond sent t =
     (if \<not> isConfigured env gemini
      then (\<lparr>embedding = None, error = Some (js ''API key not configured'')\<rparr>, sent)
      else
        (case fetch_embedContent respond sent t of
           (FetchRejected msg, sent') \<Rightarrow> (\<lparr>embedding = None, error = Some msg\<rparr>, sent')
         | (StatusNotOk body msg, sent') \<Rightarrow>
             (\<lparr>embedding = None,
               error = Some (str_or msg (js ''Embedding request failed''))\<rparr>, sent')
         | (StatusOk ej, sent') \<Rightarrow>
             (\<lparr>embedding = values_or_null ej, error = None\<rparr>, sent')))"

text \<open>
  \<open>Promise.all(texts.map(text => generateEmbedding(text)))\<close>: the calls are started in
  the order of the texts, each one makes its request when it is started, and the results
  are gathered in the order of the calls.
\<close>

fun generateEmbedding_all ::
  "ENV \<Rightarrow> (nat \<Rightarrow> fetch_outcome) \<Rightarrow> jsstring list \<Rightarrow> jsstring list
     \<Rightarrow> embedding_result list \<times> jsstring list" where
  "generateEmbedding_all env respond sent [] = ([], sent)"
| "generateEmbedding_all env respond sent (t # ts) =
     (case generateEmbedding env respond sent t of
        (r, sent') \<Rightarrow>
          (case generateEmbedding_all env respond sent' ts of
             (rs, sent'') \<Rightarrow> (r # rs, sent'')))"

record batch_result =
  embeddings :: "vector option list"
  batch_error :: "jsstring option"

definition generateEmbeddings ::
  "ENV \<Rightarrow> (nat \<Rightarrow> fetch_outcome) \<Rightarrow> jsstring list \<Rightarrow> jsstring list
     \<Rightarrow> batch_result \<times> jsstring list" where
  "generateEmbeddings env respond sent texts =
     (if \<not> isConfigured env gemini
      then (\<lparr>embeddings = [], batch_error = Some (js ''API key not configured'')\<rparr>, sent)
      else
        (case generateEmbedding_all env respond sent texts of
           (rs, sent') \<Rightarrow> (\<lparr>embeddings = map embedding rs, batch_error = None\<rparr>, sent')))"

section \<open>Document processor: embeddings, storage and the pipeline\<close>

text \<open>
  \<open>generateEmbeddings\<close> of the document processor: one request per chunk, in order; a
  request that fails in any way pushes \<open>null\<close>. A response without \<open>embedding\<close> raises a
  TypeError, which is caught as well; a response whose \<open>embedding\<close> has no \<open>values\<close>
  pushes \<open>undefined\<close>, which every later test treats as it treats \<open>null\<close>.
\<close>

fun pushed_embedding :: "fetch_outcome \<Rightarrow> vector option" where
  "pushed_embedding (StatusOk (Values v)) = Some v"
| "pushed_embedding (StatusOk ValuesMissing) = None"
| "pushed_embedding (StatusOk EmbeddingMissing) = None"
| "pushed_embedding (StatusNotOk body msg) = None"
| "pushed_embedding (FetchRejected msg) = None"

fun embed_chunks ::
  "(nat \<Rightarrow> fetch_outcome) \<Rightarrow> jsstring list \<Rightarrow> jsstring list
     \<Rightarrow> vector option list \<times> jsstring list" where
  "embed_chunks respond sent [] = ([], sent)"
| "embed_chunks respond sent (c # cs) =
     (case fetch_embedContent respond sent c of
        (out, sent') \<Rightarrow>
          (case embed_chunks respond sent' cs of
             (es, sent'') \<Rightarrow> (pushed_embedding out # es, sent'')))"

definition generateEmbeddings_processor ::
  "process_env \<Rightarrow> (nat \<Rightarrow> fetch_outcome) \<Rightarrow> jsstring list \<Rightarrow> jsstring list
     \<Rightarrow> (jsstring + vector option list) \<times> jsstring list" where
  "generateEmbeddings_processor penv respond sent chunks =
     (if \<not> truthy (GEMINI_API_KEY penv)
      then (Inl (js ''GEMINI_API_KEY is required for embeddings''), sent)
      else (case embed_chunks respond sent chunks of (es, sent') \<Rightarrow> (Inr es, sent')))"

text \<open>
  A row of the table \<open>document_chunks\<close>, with the columns that the processor writes; the
  column \<open>embedding\<close> may be null. The database state is the table and the number of
  insertions attempted so far; \<open>insert_ok k\<close> tells whether the insertion number \<open>k\<close>
  is accepted (an insertion that returns an error or throws is not). The column \<open>id\<close>
  is filled in by the database with a fresh value, here the number of the insertion.
\<close>

record document_chunk =
  dc_id :: nat
  dc_document_id :: jsstring
  dc_content :: jsstring
  dc_embedding :: "vector option"
  dc_document_type :: jsstring

record database =
  document_chunks :: "document_chunk list"
  insert_attempts :: nat

definition insert_chunk ::
  "(nat \<Rightarrow> bool) \<Rightarrow> database \<Rightarrow> jsstring \<Rightarrow> jsstring \<Rightarrow> vector option \<Rightarrow> jsstring
     \<Rightarrow> bool \<times> database" where
  "insert_chunk insert_ok db documentId chunk e documentType =
     (if insert_ok (insert_attempts db)
      then (True,
            \<lparr>document_chunks = document_chunks db @
               [\<lparr>dc_id = insert_attempts db, dc_document_id = documentId, dc_content = chunk,
                 dc_embedding = e, dc_document_type = documentType\<rparr>],
             insert_attempts = Suc (insert_attempts db)\<rparr>)
      else (False, db\<lparr>insert_attempts := Suc (insert_attempts db)\<rparr>))"

text \<open>
  The loop \<open>for (let i = 0; i < chunks.length; i++)\<close> of \<open>saveChunksToSupabase\<close>, on
  the chunks from position \<open>i\<close> on and the embeddings from position \<open>i\<close> on;
  \<open>embeddings[i]\<close> is \<open>undefined\<close> beyond the end of the array.
\<close>

fun save_loop ::
  "(nat \<Rightarrow> bool) \<Rightarrow> jsstring \<Rightarrow> jsstring \<Rightarrow> jsstring list \<Rightarrow> vector option list
     \<Rightarrow> nat \<times> database \<Rightarrow> nat \<times> database" where
  "save_loop insert_ok documentId documentType [] es st = st"
| "save_loop insert_ok documentId documentType (c # cs) es (savedCount, db) =
     (case (case es of [] \<Rightarrow> None | e # _ \<Rightarrow> e) of
        None \<Rightarrow> save_loop insert_ok documentId documentType cs (tl es) (savedCount, db)
      | Some v \<Rightarrow>
          (case insert_chunk insert_ok db documentId c (Some v) documentType of
             (ok, db') \<Rightarrow>
               save_loop insert_ok documentId documentType cs (tl es)
                 (if ok then Suc savedCount else savedCount, db')))"

definition saveChunksToSupabase ::
  "client_library \<Rightarrow> process_env \<Rightarrow> (nat \<Rightarrow> bool) \<Rightarrow> database \<Rightarrow> jsstring list
     \<Rightarrow> vector option list \<Rightarrow> jsstring \<Rightarrow> jsstring \<Rightarrow> jsstring + nat \<times> database" where
  "saveChunksToSupabase createClient penv insert_ok db chunks es documentId documentType =
     (case createServiceClient createClient penv of
        Inl msg \<Rightarrow> Inl msg
      | Inr client \<Rightarrow> Inr (save_loop insert_ok documentId documentType chunks es (0, db)))"

record process_result =
  success :: bool
  chunks_created :: nat
  total_chunks :: "nat option"
  process_error :: "jsstring option"

text \<open>
  \<open>processDocument\<close>. The text extraction is outside the module: \<open>extracted\<close> is what
  \<open>extractText\<close> comes to, an error message or the text. The result is \<open>None\<close> when the
  chunker does not return.
\<close>

definition processDocument ::
  "client_library \<Rightarrow> process_env \<Rightarrow> (nat \<Rightarrow> fetch_outcome) \<Rightarrow> (nat \<Rightarrow> bool)
     \<Rightarrow> jsstring list \<Rightarrow> database \<Rightarrow> jsstring + jsstring \<Rightarrow> jsstring \<Rightarrow> jsstring
     \<Rightarrow> (process_result \<times> jsstring list \<times> database) option" where
  "processDocument createClient penv respond insert_ok sent db extracted documentId
     documentType =
     (case extracted of
        Inl msg \<Rightarrow>
          Some (\<lparr>success = False, chunks_created = 0, total_chunks = None,
                 process_error = Some msg\<rparr>, sent, db)
      | Inr t \<Rightarrow>
          if length t < 10 then
            Some (\<lparr>success = False, chunks_created = 0, total_chunks = None,
                   process_error = Some (js ''Document contains no extractable text'')\<rparr>,
                  sent, db)
          else
            (case splitIntoChunks t CHUNK_SIZE CHUNK_OVERLAP of
               None \<Rightarrow> None
             | Some chunks \<Rightarrow>
                 (case generateEmbeddings_processor penv respond sent chunks of
                    (Inl msg, sent') \<Rightarrow>
                      Some (\<lparr>success = False, chunks_created = 0, total_chunks = None,
                             process_error = Some msg\<rparr>, sent', db)
                  | (Inr es, sent') \<Rightarrow>
                      (case saveChunksToSupabase createClient penv insert_ok db chunks es
                              documentId documentType of
                         Inl msg \<Rightarrow>
                           Some (\<lparr>success = False, chunks_created = 0, total_chunks = None,
                                  process_error = Some msg\<rparr>, sent', db)
                       | Inr (savedCount, db') \<Rightarrow>
                           Some (\<lparr>success = True, chunks_created = savedCount,
                                  total_chunks = Some (length chunks),
                                  process_error = None\<rparr>, sent', db')))))"

text \<open>The number of embeddings that are present among the first \<open>n\<close> of a list.\<close>

definition stored_embeddings :: "vector option list \<Rightarrow> nat \<Rightarrow> nat" where
  "stored_embeddings es n = length (filter (\<lambda>e. e \<noteq> None) (take n es))"

section \<open>RAG pipeline: vector storage\<close>

text \<open>
  A row of the table \<open>embeddings\<close> as \<open>storeVectors\<close> prepares it (the time stamp is
  left out). The insertion of all rows is one request: \<open>insert_error\<close> is its error, if
  any, and \<open>client_available\<close> tells whether \<open>getSupabase\<close> returns a client.
\<close>

record embedding_row =
  er_document_id :: jsstring
  er_chunk_index :: nat
  er_content :: jsstring
  er_embedding :: "vector option"
  er_char_start :: int
  er_char_end :: int

record store_result =
  store_success :: bool
  store_count :: "nat option"
  store_error :: "jsstring option"

definition nth_or_undefined :: "'a option list \<Rightarrow> nat \<Rightarrow> 'a option" where
  "nth_or_undefined xs i = (if i < length xs then xs ! i else None)"

definition prepare_rows :: "jsstring \<Rightarrow> chunk list \<Rightarrow> vector option list \<Rightarrow> embedding_row list" where
  "prepare_rows documentId chunks es =
     map (\<lambda>(c, index).
            \<lparr>er_document_id = documentId, er_chunk_index = chunk_id c,
             er_content = content c, er_embedding = nth_or_undefined es index,
             er_char_start = charStart c, er_char_end = charEnd c\<rparr>)
         (zip chunks [0..<length chunks])"

definition storeVectors ::
  "ENV \<Rightarrow> (nat \<Rightarrow> fetch_outcome) \<Rightarrow> bool \<Rightarrow> jsstring option \<Rightarrow> jsstring list
     \<Rightarrow> embedding_row list \<Rightarrow> jsstring \<Rightarrow> chunk list
     \<Rightarrow> store_result \<times> jsstring list \<times> embedding_row list" where
  "storeVectors env respond client_available insert_error sent table documentId chunks =
     (if \<not> isConfigured env supabase \<or> \<not> isConfigured env gemini
      then (\<lparr>store_success = False, store_count = None,
              store_error = Some (js ''Services not configured'')\<rparr>, sent, table)
      else
        (case generateEmbeddings env respond sent (map content chunks) of
           (batch, sent') \<Rightarrow>
             if truthy (batch_error batch) then
               (\<lparr>store_success = False, store_count = None,
                 store_error =
                   Some (js ''Embedding error: '' @ str_or (batch_error batch) [])\<rparr>,
                sent', table)
             else if \<not> client_available then
               (\<lparr>store_success = False, store_count = None,
                 store_error = Some (js ''Supabase client not available'')\<rparr>, sent', table)
             else
               (case insert_error of
                  Some msg \<Rightarrow>
                    (\<lparr>store_success = False, store_count = None, store_error = Some msg\<rparr>,
                     sent', table)
                | None \<Rightarrow>
                    (let rows = prepare_rows documentId chunks (embeddings batch)
                     in (\<lparr>store_success = True, store_count = Some (length rows),
                          store_error = None\<rparr>, sent', table @ rows)))))"

section \<open>The similarity search of the database\<close>

text \<open>
  A value of the SQL type \<open>float\<close> (double precision): a number or NaN. The database
  compares such values with NaN equal to itself and above every number, in \<open>WHERE\<close> as
  in \<open>ORDER BY\<close>; a difference is NaN when one of its operands is. The numbers are real
  numbers here, and the two infinities, which no distance takes, are left out.
\<close>

datatype float8 = Finite real | NaN

instantiation float8 :: linorder
begin

definition less_eq_float8 :: "float8 \<Rightarrow> float8 \<Rightarrow> bool" where
  "x \<le> y \<longleftrightarrow>
     (case y of NaN \<Rightarrow> True | Finite b \<Rightarrow> (case x of NaN \<Rightarrow> False | Finite a \<Rightarrow> a \<le> b))"

definition less_float8 :: "float8 \<Rightarrow> float8 \<Rightarrow> bool" where
  "x < y \<longleftrightarrow> x \<le> y \<and> \<not> y \<le> (x :: float8)"

instance
proof
  fix x y z :: float8
  show "(x < y) = (x \<le> y \<and> \<not> y \<le> x)"
    by (simp add: less_float8_def)
  show "x \<le> x"
    by (cases x) (simp_all add: less_eq_float8_def)
  show "x \<le> y \<Longrightarrow> y \<le> z \<Longrightarrow> x \<le> z"
    by (cases x; cases y; cases z) (simp_all add: less_eq_float8_def)
  show "x \<le> y \<Longrightarrow> y \<le> x \<Longrightarrow> x = y"
    by (cases x; cases y) (simp_all add: less_eq_float8_def)
  show "x \<le> y \<or> y \<le> x"
    by (cases x; cases y) (auto simp: less_eq_float8_def)
qed

end






text \<open>
  The order of the similarities of the rows returned: descending among the numbers,
  with NaN after every number.
\<close>

definition descending_nan_last :: "float8 \<Rightarrow> float8 \<Rightarrow> bool" where
  "descending_nan_last x y =
     (case y of NaN \<Rightarrow> True | Finite b \<Rightarrow> (case x of NaN \<Rightarrow> False | Finite a \<Rightarrow> b \<le> a))"



text \<open>A vector of the dimension 768 of the column \<open>embedding\<close>, given by its last
  components; the components before them are 0.\<close>

definition padded :: "vector \<Rightarrow> vector" where
  "padded v = replicate (768 - length v) 0 @ v"

section \<open>RAG retriever\<close>

definition TOP_K :: int where "TOP_K = 5"

text \<open>The message of the TypeError raised by reading \<open>values\<close> of \<open>undefined\<close>; its
  wording is the engine's.\<close>

definition TypeError_values :: jsstring where
  "TypeError_values = js ''Cannot read properties of undefined''"

text \<open>
  \<open>generateQueryEmbedding\<close> throws (\<open>Inl\<close>, with the message) or returns
  \<open>data.embedding.values\<close>, which is \<open>undefined\<close> (\<open>None\<close>) when the response has an
  embedding without values.
\<close>

definition generateQueryEmbedding ::
  "process_env \<Rightarrow> (nat \<Rightarrow> fetch_outcome) \<Rightarrow> jsstring list \<Rightarrow> jsstring
     \<Rightarrow> (jsstring + vector option) \<times> jsstring list" where
  "generateQueryEmbedding penv respond sent query =
     (if \<not> truthy (GEMINI_API_KEY penv)
      then (Inl (js ''GEMINI_API_KEY is required''), sent)
      else
        (case fetch_embedContent respond sent query of
           (FetchRejected msg, sent') \<Rightarrow> (Inl msg, sent')
         | (StatusNotOk body msg, sent') \<Rightarrow> (Inl (js ''Embedding API error: '' @ body), sent')
         | (StatusOk EmbeddingMissing, sent') \<Rightarrow> (Inl TypeError_values, sent')
         | (StatusOk ValuesMissing, sent') \<Rightarrow> (Inr None, sent')
         | (StatusOk (Values v), sent') \<Rightarrow> (Inr (Some v), sent')))"

text \<open>
  What a request to the database comes to: it resolves to \<open>{data: null, error}\<close> or to
  \<open>{data, error: null}\<close>, where \<open>data\<close> may be null, or it is rejected
  (\<open>PgRejected\<close>, with the message of the error), which throws at the \<open>await\<close>. Of a
  returned row only \<open>content\<close> is read. The database is given by its two answers: \<open>rpc_match_documents\<close> to the call of
  the function \<open>match_documents\<close> with an embedding, a threshold and a count, and
  \<open>select_document_chunks\<close> to the query
  \<open>from('document_chunks').select('content, document_id').limit(topK)\<close>.
\<close>

datatype pg_response = PgError jsstring | PgData "jsstring list option" | PgRejected jsstring

record store =
  rpc_match_documents :: "vector option \<Rightarrow> real \<Rightarrow> int \<Rightarrow> pg_response"
  select_document_chunks :: "int \<Rightarrow> pg_response"

text \<open>The requests made to the database so far are part of the state, as the requests
  to the embedding provider are.\<close>

datatype db_request =
    RpcMatchDocuments "vector option" real int
  | SelectDocumentChunks int

record rag_result =
  rag_context :: jsstring
  rag_chunks :: nat
  rag_source :: "jsstring option"
  rag_error :: "jsstring option"

text \<open>\<open>data?.map(d => d.content).join('\n\n---\n\n') || ''\<close> and \<open>data?.length || 0\<close>.\<close>

definition context_of :: "jsstring list option \<Rightarrow> jsstring" where
  "context_of data =
     (case data of None \<Rightarrow> [] | Some ds \<Rightarrow> join ([10, 10] @ js ''---'' @ [10, 10]) ds)"

definition count_of :: "jsstring list option \<Rightarrow> nat" where
  "count_of data = (case data of None \<Rightarrow> 0 | Some ds \<Rightarrow> length ds)"

text \<open>
  The \<open>try\<close> block of \<open>retrieveContext\<close>: \<open>Inl\<close> is an error thrown in the block, with
  its message, and \<open>Inr\<close> the object returned. The database is asked only after the
  query embedding and the client are there.
\<close>

definition retrieveContext_try ::
  "client_library \<Rightarrow> process_env \<Rightarrow> (nat \<Rightarrow> fetch_outcome) \<Rightarrow> store \<Rightarrow> jsstring list
     \<Rightarrow> db_request list \<Rightarrow> jsstring \<Rightarrow> int
     \<Rightarrow> (jsstring + rag_result) \<times> jsstring list \<times> db_request list" where
  "retrieveContext_try createClient penv respond db sent asked query topK =
     (case generateQueryEmbedding penv respond sent query of
        (Inl msg, sent') \<Rightarrow> (Inl msg, sent', asked)
      | (Inr queryEmbedding, sent') \<Rightarrow>
          (case createServiceClient createClient penv of
             Inl msg \<Rightarrow> (Inl msg, sent', asked)
           | Inr client \<Rightarrow>
               (case rpc_match_documents db queryEmbedding (1 / 2) topK of
                  PgError e \<Rightarrow>
                    (case select_document_chunks db topK of
                       PgError fallbackError \<Rightarrow>
                         (Inl fallbackError, sent',
                          asked @ [RpcMatchDocuments queryEmbedding (1 / 2) topK,
                                   SelectDocumentChunks topK])
                     | PgData fallbackData \<Rightarrow>
                         (Inr \<lparr>rag_context = context_of fallbackData,
                               rag_chunks = count_of fallbackData,
                               rag_source = Some (js ''fallback''), rag_error = None\<rparr>,
                          sent',
                          asked @ [RpcMatchDocuments queryEmbedding (1 / 2) topK,
                                   SelectDocumentChunks topK])
                     | PgRejected msg \<Rightarrow>
                         (Inl msg, sent',
                          asked @ [RpcMatchDocuments queryEmbedding (1 / 2) topK,
                                   SelectDocumentChunks topK]))
                | PgData data \<Rightarrow>
                    (Inr \<lparr>rag_context = context_of data, rag_chunks = count_of data,
                          rag_source = Some (js ''vector_search''), rag_error = None\<rparr>,
                     sent', asked @ [RpcMatchDocuments queryEmbedding (1 / 2) topK])
                | PgRejected msg \<Rightarrow>
                    (Inl msg, sent', asked @ [RpcMatchDocuments queryEmbedding (1 / 2) topK]))))"

text \<open>The object that the \<open>catch\<close> block of \<open>retrieveContext\<close> returns.\<close>

definition retrieval_error :: "jsstring \<Rightarrow> rag_result" where
  "retrieval_error msg =
     \<lparr>rag_context = [], rag_chunks = 0, rag_source = None, rag_error = Some msg\<rparr>"

text \<open>
  \<open>retrieveContext\<close>: the \<open>try\<close> block and the \<open>catch\<close> block. In its result \<open>Inl\<close> is
  an error that reaches the caller and \<open>Inr\<close> the object that the caller receives.
\<close>

definition retrieveContext ::
  "client_library \<Rightarrow> process_env \<Rightarrow> (nat \<Rightarrow> fetch_outcome) \<Rightarrow> store \<Rightarrow> jsstring list
     \<Rightarrow> db_request list \<Rightarrow> jsstring \<Rightarrow> int
     \<Rightarrow> (jsstring + rag_result) \<times> jsstring list \<times> db_request list" where
  "retrieveContext createClient penv respond db sent asked query topK =
     (case retrieveContext_try createClient penv respond db sent asked query topK of
        (Inl msg, sent', asked') \<Rightarrow> (Inr (retrieval_error msg), sent', asked')
      | (Inr result, sent', asked') \<Rightarrow> (Inr result, sent', asked'))"

section \<open>Properties\<close>

subsection \<open>Text cleaning\<close>

lemma replace_runs_no_match:
  "\<forall>c\<in>set s. \<not> p c \<Longrightarrow> replace_runs p r s = s"
  by (induction s) auto

lemma replace_runs_space_set:
  "c \<in> set (replace_runs is_space 32 s) \<Longrightarrow> c = 32 \<or> \<not> is_space c"
  by (induction is_space "32 :: code_unit" s rule: replace_runs.induct)
     (auto split: if_splits)

lemma length_replace_runs: "length (replace_runs p r s) \<le> length s"
proof (induction p r s rule: replace_runs.induct)
  case (1 p r)
  show ?case by simp
next
  case (2 p r c cs)
  have "length (dropWhile p cs) \<le> length cs"
    by (rule length_dropWhile_le)
  with 2 show ?case by (auto intro: le_trans)
qed

lemma length_trim: "length (trim s) \<le> length s"
proof -
  have "length (trim s) \<le> length (dropWhile is_space s)"
    unfolding trim_def using length_dropWhile_le [of is_space "rev (dropWhile is_space s)"]
    by simp
  also have "\<dots> \<le> length s" by (rule length_dropWhile_le)
  finally show ?thesis .
qed

lemma set_trim: "set (trim s) \<subseteq> set s"
proof -
  have "set (trim s) \<subseteq> set (dropWhile is_space s)"
    unfolding trim_def using set_dropWhileD [of _ is_space "rev (dropWhile is_space s)"]
    by auto
  also have "\<dots> \<subseteq> set s" using set_dropWhileD by fastforce
  finally show ?thesis .
qed

lemma length_cleanText: "length (cleanText text) \<le> length text"
  unfolding cleanText_def
  by (meson length_trim length_replace_runs le_trans)

lemma is_space_newline: "is_space 10" and newline_not_blank: "(10 :: code_unit) \<noteq> 32"
  by (simp_all add: is_space_def)

lemma replace_runs_space_no_newline: "10 \<notin> set (replace_runs is_space 32 s)"
  using replace_runs_space_set [of 10 s] is_space_newline newline_not_blank by blast

lemma replace_runs_newline_idle:
  "replace_runs is_newline 10 (replace_runs is_space 32 s) = replace_runs is_space 32 s"
proof (rule replace_runs_no_match)
  show "\<forall>c\<in>set (replace_runs is_space 32 s). \<not> is_newline c"
    using replace_runs_space_no_newline [of s] by (auto simp: is_newline_def)
qed

lemma cleanText_no_newline: "10 \<notin> set (cleanText t)"
  unfolding cleanText_def replace_runs_newline_idle
  using set_trim replace_runs_space_no_newline by blast


lemma mem_dropWhile: "x \<in> set xs \<Longrightarrow> \<not> P x \<Longrightarrow> x \<in> set (dropWhile P xs)"
  by (induction xs) auto

lemma mem_trim: "c \<in> set s \<Longrightarrow> \<not> is_space c \<Longrightarrow> c \<in> set (trim s)"
  unfolding trim_def by (simp add: mem_dropWhile)

lemma mem_replace_runs: "c \<in> set s \<Longrightarrow> \<not> p c \<Longrightarrow> c \<in> set (replace_runs p r s)"
  by (induction p r s rule: replace_runs.induct) (auto simp: mem_dropWhile)

lemma mem_cleanText: "c \<in> set t \<Longrightarrow> \<not> is_space c \<Longrightarrow> c \<in> set (cleanText t)"
  unfolding cleanText_def replace_runs_newline_idle
  by (simp add: mem_trim mem_replace_runs)

lemma cleanText_normalized:
  "replace_runs is_space 32 t = t \<Longrightarrow> cleanText t = trim t"
  unfolding cleanText_def replace_runs_newline_idle by simp

lemma filter_dropWhile_not: "filter (\<lambda>c. \<not> p c) (dropWhile p cs) = filter (\<lambda>c. \<not> p c) cs"
  by (induction cs) auto

lemma filter_replace_runs:
  "p r \<Longrightarrow> filter (\<lambda>c. \<not> p c) (replace_runs p r s) = filter (\<lambda>c. \<not> p c) s"
  by (induction p r s rule: replace_runs.induct) (auto simp: filter_dropWhile_not)

lemma filter_trim: "filter (\<lambda>c. \<not> is_space c) (trim s) = filter (\<lambda>c. \<not> is_space c) s"
proof -
  have "filter (\<lambda>c. \<not> is_space c) (trim s)
        = rev (filter (\<lambda>c. \<not> is_space c) (dropWhile is_space (rev (dropWhile is_space s))))"
    by (simp add: trim_def rev_filter)
  also have "\<dots> = rev (filter (\<lambda>c. \<not> is_space c) (rev (dropWhile is_space s)))"
    by (simp only: filter_dropWhile_not)
  also have "\<dots> = filter (\<lambda>c. \<not> is_space c) (dropWhile is_space s)"
    by (simp add: rev_filter)
  finally show ?thesis by (simp only: filter_dropWhile_not)
qed

text \<open>What the cleaning does keep: the characters that are not whitespace, in their
  order; every whitespace character of the result is a single space between two other
  characters.\<close>

lemma cleanText_keeps_text:
  "filter (\<lambda>c. \<not> is_space c) (cleanText t) = filter (\<lambda>c. \<not> is_space c) t"
proof -
  have "is_space 32" by (simp add: is_space_def)
  then show ?thesis
    unfolding cleanText_def replace_runs_newline_idle
    by (simp add: filter_trim filter_replace_runs)
qed

lemma cleanText_blank_only: "c \<in> set (cleanText t) \<Longrightarrow> is_space c \<Longrightarrow> c = 32"
  unfolding cleanText_def replace_runs_newline_idle
  using set_trim replace_runs_space_set by blast

lemma trim_ends: "trim s \<noteq> [] \<Longrightarrow> \<not> is_space (hd (trim s)) \<and> \<not> is_space (last (trim s))"
proof -
  assume ne: "trim s \<noteq> []"
  let ?ys = "dropWhile is_space s"
  let ?zs = "dropWhile is_space (rev ?ys)"
  from ne have zs: "?zs \<noteq> []" by (simp add: trim_def)
  then have "\<not> is_space (hd ?zs)" by (rule hd_dropWhile)
  then have l: "\<not> is_space (last (trim s))"
    using zs by (simp add: trim_def last_rev)
  have ys: "?ys \<noteq> []"
  proof
    assume "?ys = []"
    then have "?zs = []" by (simp only: rev.simps dropWhile.simps)
    with zs show False by (simp only: not_True_eq_False simp_thms)
  qed
  then have h: "\<not> is_space (hd ?ys)" by (rule hd_dropWhile)
  from ys obtain y ys' where yy: "?ys = y # ys'" by (cases ?ys) auto
  with h have "\<not> is_space y" by simp
  then have "?zs = dropWhile is_space (rev ys') @ [y]"
    unfolding yy by (simp add: dropWhile_append)
  then have "trim s = y # rev (dropWhile is_space (rev ys'))"
    by (simp add: trim_def)
  with \<open>\<not> is_space y\<close> l show ?thesis by simp
qed

lemma cleanText_trimmed:
  "cleanText t \<noteq> [] \<Longrightarrow> \<not> is_space (hd (cleanText t)) \<and> \<not> is_space (last (cleanText t))"
  unfolding cleanText_def by (rule trim_ends)

lemma successively_dropWhile: "successively R xs \<Longrightarrow> successively R (dropWhile P xs)"
  by (induction xs rule: induct_list012) auto

lemma successively_replace_runs:
  "successively (\<lambda>a b. \<not> (p a \<and> p b)) (replace_runs p r s)"
proof (induction p r s rule: replace_runs.induct)
  case (1 p r)
  show ?case by simp
next
  case (2 p r c cs)
  show ?case
  proof (cases "p c")
    case True
    show ?thesis
    proof (cases "dropWhile p cs")
      case Nil
      have "replace_runs p r (c # cs) = [r]"
        using True by (simp only: replace_runs.simps Nil if_True)
      then show ?thesis by simp
    next
      case (Cons d ds)
      then have "\<not> p d" using hd_dropWhile [of p cs] by auto
      with Cons have "replace_runs p r (dropWhile p cs) = d # replace_runs p r ds" by simp
      with 2(1) [OF True] True \<open>\<not> p d\<close> show ?thesis by (simp add: successively_Cons)
    qed
  next
    case False
    with 2(2) show ?thesis by (cases "replace_runs p r cs") (auto simp: successively_Cons)
  qed
qed

lemma successively_trim: "successively R s \<Longrightarrow> successively R (trim s)"
  unfolding trim_def
  by (simp add: successively_dropWhile successively_rev)

lemma cleanText_single_blanks:
  "successively (\<lambda>a b. \<not> (is_space a \<and> is_space b)) (cleanText t)"
  unfolding cleanText_def replace_runs_newline_idle
  by (intro successively_trim successively_replace_runs)

text \<open>
  Claim C8. The cleaning step is claimed to collapse every run of newlines to a single
  newline, so that a newline of the input is still a newline in the output. The code
  replaces every whitespace run, newlines included, by a space first, so the second
  replacement never finds a newline: the text \<open>a\n\nb\<close> is cleaned to \<open>a b\<close>, and no
  cleaned text contains a newline at all.
\<close>

theorem cleanText_drops_newlines:
  "cleanText (js ''a'' @ [10, 10] @ js ''b'') = js ''a b'' \<and> 10 \<notin> set (cleanText t)"
proof
  show "cleanText (js ''a'' @ [10, 10] @ js ''b'') = js ''a b''"
    by (simp add: cleanText_def trim_def js_def is_space_def is_newline_def)
  show "10 \<notin> set (cleanText t)"
    by (rule cleanText_no_newline)
qed

subsection \<open>The sliding-window chunker\<close>

text \<open>
  Claim C6, as stated: empty input gives no chunk, and a text no longer than the chunk
  size gives one chunk equal to the trimmed input. Neither holds: the empty text gives
  one empty chunk, and the text \<open>a  b\<close> (two spaces) gives the chunk \<open>a b\<close>, which is
  the cleaned text and not the trimmed input \<open>a  b\<close>.
\<close>

theorem splitIntoChunks_short_counterexample:
  "splitIntoChunks [] 900 100 = Some [[]]
   \<and> splitIntoChunks (js ''a  b'') 900 100 = Some [js ''a b'']
   \<and> trim (js ''a  b'') = js ''a  b''
   \<and> js ''a b'' \<noteq> js ''a  b''"
  by (simp add: splitIntoChunks_def splitIntoChunks_run_def cleanText_def trim_def js_def
      is_space_def is_newline_def)

text \<open>
  Claim C6, amended: a text that is no longer than the chunk size and has a character
  that is not whitespace gives exactly one chunk, the cleaned text (whitespace runs
  collapsed to one space, then trimmed), and that chunk is not empty.
\<close>

theorem splitIntoChunks_short:
  assumes "int (length t) \<le> chunkSize" and "\<exists>c\<in>set t. \<not> is_space c"
  shows "splitIntoChunks t chunkSize overlap = Some [cleanText t] \<and> cleanText t \<noteq> []"
proof
  have "int (length (cleanText t)) \<le> chunkSize"
    using assms(1) length_cleanText [of t] by linarith
  then show "splitIntoChunks t chunkSize overlap = Some [cleanText t]"
    by (simp add: splitIntoChunks_def splitIntoChunks_run_def)
  from assms(2) obtain c where "c \<in> set t" "\<not> is_space c" by blast
  then have "c \<in> set (cleanText t)" by (rule mem_cleanText)
  then show "cleanText t \<noteq> []" by auto
qed

theorem splitIntoChunks_short_witness:
  "int (length (js '' a  b '')) \<le> 900 \<and> (\<exists>c\<in>set (js '' a  b ''). \<not> is_space c)
   \<and> splitIntoChunks (js '' a  b '') 900 100 = Some [js ''a b'']"
proof -
  have len: "int (length (js '' a  b '')) \<le> 900" by (simp add: js_def)
  have ex: "\<exists>c\<in>set (js '' a  b ''). \<not> is_space c" by (simp add: js_def is_space_def)
  have "cleanText (js '' a  b '') = js ''a b''"
    by (simp add: cleanText_def trim_def js_def is_space_def is_newline_def)
  with splitIntoChunks_short [OF len ex, of 100] len ex show ?thesis by simp
qed

lemma chunk_loop_stuck:
  assumes stay: "chunk_end ct chunkSize start - overlap = start"
      and inside: "start < int (length ct)"
  shows "chunk_loop ct chunkSize overlap start chunks passes = None"
proof (rule ccontr)
  assume "chunk_loop ct chunkSize overlap start chunks passes \<noteq> None"
  then obtain y where run: "chunk_loop ct chunkSize overlap start chunks passes = Some y"
    by auto
  have "\<not> (a = ct \<and> b = chunkSize \<and> c = overlap \<and> d = start)"
    if "chunk_loop a b c d e f = Some r" for a b c d e f r
  proof (rule chunk_loop.raw_induct
      [where P = "\<lambda>a b c d e f r. \<not> (a = ct \<and> b = chunkSize \<and> c = overlap \<and> d = start)",
        OF _ that])
    fix loop :: "jsstring \<Rightarrow> int \<Rightarrow> int \<Rightarrow> int \<Rightarrow> jsstring list \<Rightarrow> nat \<Rightarrow> (jsstring list \<times> nat) option"
    fix a b c d e f r
    assume IH: "\<And>a b c d e f r. loop a b c d e f = Some r \<Longrightarrow>
                  \<not> (a = ct \<and> b = chunkSize \<and> c = overlap \<and> d = start)"
    assume step: "(if d < int (length a)
        then loop a b c (chunk_end a b d - c)
               (push_chunk e (trim (slice a d (chunk_end a b d)))) (Suc f)
        else Some (e, f)) = Some r"
    show "\<not> (a = ct \<and> b = chunkSize \<and> c = overlap \<and> d = start)"
    proof
      assume "a = ct \<and> b = chunkSize \<and> c = overlap \<and> d = start"
      with step stay inside
      have "loop ct chunkSize overlap start
              (push_chunk e (trim (slice ct start (chunk_end ct chunkSize start)))) (Suc f) = Some r"
        by simp
      with IH show False by blast
    qed
  qed
  from this [OF run] show False by simp
qed

lemma chunk_end_advance:
  "min_advance chunkSize overlap \<le> chunk_end ct chunkSize start - overlap - start"
  unfolding chunk_end_def min_advance_def Let_def
  by (simp split: if_splits) presburger

lemma chunk_loop_terminates:
  assumes d: "0 < min_advance chunkSize overlap"
  shows "\<exists>cs n. chunk_loop ct chunkSize overlap start chunks passes = Some (cs, n)
           \<and> passes \<le> n
           \<and> (start < int (length ct) \<longrightarrow>
                (int (n - passes) - 1) * min_advance chunkSize overlap < int (length ct) - start)
           \<and> (\<not> start < int (length ct) \<longrightarrow> n = passes)"
proof (induction "nat (int (length ct) - start)" arbitrary: start chunks passes rule: less_induct)
  case less
  show ?case
  proof (cases "start < int (length ct)")
    case False
    then show ?thesis by (subst chunk_loop.simps) simp
  next
    case True
    define start' where "start' = chunk_end ct chunkSize start - overlap"
    define chunks' where "chunks' = push_chunk chunks (trim (slice ct start (chunk_end ct chunkSize start)))"
    have adv: "min_advance chunkSize overlap \<le> start' - start"
      unfolding start'_def using chunk_end_advance [of chunkSize overlap ct start] by simp
    with d True have "nat (int (length ct) - start') < nat (int (length ct) - start)"
      by linarith
    from less [OF this, of chunks' "Suc passes"]
    obtain cs n where run: "chunk_loop ct chunkSize overlap start' chunks' (Suc passes) = Some (cs, n)"
      and le: "Suc passes \<le> n"
      and bound: "start' < int (length ct) \<longrightarrow>
                (int (n - Suc passes) - 1) * min_advance chunkSize overlap < int (length ct) - start'"
      and stop: "\<not> start' < int (length ct) \<longrightarrow> n = Suc passes"
      by blast
    have eq: "chunk_loop ct chunkSize overlap start chunks passes = Some (cs, n)"
      using True run by (subst chunk_loop.simps) (simp add: start'_def chunks'_def)
    have "(int (n - passes) - 1) * min_advance chunkSize overlap < int (length ct) - start"
    proof (cases "start' < int (length ct)")
      case False
      with stop have "n = Suc passes" by simp
      with True show ?thesis by simp
    next
      case T: True
      with bound have b: "(int (n - Suc passes) - 1) * min_advance chunkSize overlap < int (length ct) - start'"
        by simp
      have "int (n - passes) - 1 = (int (n - Suc passes) - 1) + 1"
        using le by simp
      then have "(int (n - passes) - 1) * min_advance chunkSize overlap
          = (int (n - Suc passes) - 1) * min_advance chunkSize overlap + min_advance chunkSize overlap"
        by (simp add: algebra_simps)
      with b adv show ?thesis by linarith
    qed
    with eq le True show ?thesis by auto
  qed
qed

lemma splitIntoChunks_run_passes:
  assumes d: "0 < min_advance chunkSize overlap"
  shows "\<exists>cs n. splitIntoChunks_run t chunkSize overlap = Some (cs, n)
           \<and> (n = 0 \<or> (int n - 1) * min_advance chunkSize overlap < int (length (cleanText t)))"
proof (cases "int (length (cleanText t)) \<le> chunkSize")
  case True
  then show ?thesis by (simp add: splitIntoChunks_run_def)
next
  case False
  from chunk_loop_terminates [OF d, of "cleanText t" 0 "[]" 0]
  obtain cs n where "chunk_loop (cleanText t) chunkSize overlap 0 [] 0 = Some (cs, n)"
    and "0 < int (length (cleanText t)) \<longrightarrow>
           (int (n - 0) - 1) * min_advance chunkSize overlap < int (length (cleanText t)) - 0"
    and "\<not> 0 < int (length (cleanText t)) \<longrightarrow> n = 0"
    by blast
  with False show ?thesis by (auto simp: splitIntoChunks_run_def)
qed

lemma passes_div_bound:
  fixes n :: nat and d len :: int
  assumes "0 < d" and "n = 0 \<or> (int n - 1) * d < len" and "0 \<le> len"
  shows "int n \<le> len div d + 1"
proof (cases "n = 0")
  case True
  with assms show ?thesis by (simp add: pos_imp_zdiv_nonneg_iff)
next
  case False
  with assms have "(int n - 1) * d \<le> len" by simp
  then have "((int n - 1) * d) div d \<le> len div d"
    using assms(1) by (intro zdiv_mono1) simp_all
  with assms(1) show ?thesis by simp
qed

text \<open>
  Claim C3, as stated: the chunker terminates whenever \<open>overlap < chunkSize\<close> and
  rejects every configuration with \<open>overlap \<ge> chunkSize\<close>. The code checks nothing: with
  chunk size 10 and overlap 10 a short text is chunked as usual, and a longer text keeps
  the loop at \<open>start = 0\<close> for ever; and with chunk size 10 and overlap 7, which is less
  than the chunk size, a break at the full stop of \<open>aaaaaa.aaaaaaaa\<close> sets
  \<open>end = 7\<close> and \<open>start = 0\<close> again, so the loop never ends.
\<close>

theorem splitIntoChunks_progress_counterexample:
  "splitIntoChunks (js ''abc'') 10 10 = Some [js ''abc'']
   \<and> splitIntoChunks (js ''aaaaaaaaaaaaaaa'') 10 10 = None
   \<and> splitIntoChunks (js ''aaaaaa.aaaaaaaa'') 10 7 = None"
proof (intro conjI)
  show "splitIntoChunks (js ''abc'') 10 10 = Some [js ''abc'']"
    by (simp add: splitIntoChunks_def splitIntoChunks_run_def cleanText_def trim_def js_def
        is_space_def is_newline_def)
next
  have ct: "cleanText (js ''aaaaaaaaaaaaaaa'') = js ''aaaaaaaaaaaaaaa''"
    by (simp add: cleanText_def trim_def js_def is_space_def is_newline_def)
  have stay: "chunk_end (js ''aaaaaaaaaaaaaaa'') 10 0 - 10 = 0"
    by code_simp
  have "chunk_loop (js ''aaaaaaaaaaaaaaa'') 10 10 0 [] 0 = None"
    by (rule chunk_loop_stuck [OF stay]) (simp add: js_def)
  then show "splitIntoChunks (js ''aaaaaaaaaaaaaaa'') 10 10 = None"
    by (simp add: splitIntoChunks_def splitIntoChunks_run_def ct) (simp add: js_def)
next
  have ct: "cleanText (js ''aaaaaa.aaaaaaaa'') = js ''aaaaaa.aaaaaaaa''"
    by (simp add: cleanText_def trim_def js_def is_space_def is_newline_def)
  have stay: "chunk_end (js ''aaaaaa.aaaaaaaa'') 10 0 - 7 = 0"
    by code_simp
  have "chunk_loop (js ''aaaaaa.aaaaaaaa'') 10 7 0 [] 0 = None"
    by (rule chunk_loop_stuck [OF stay]) (simp add: js_def)
  then show "splitIntoChunks (js ''aaaaaa.aaaaaaaa'') 10 7 = None"
    by (simp add: splitIntoChunks_def splitIntoChunks_run_def ct) (simp add: js_def)
qed

text \<open>
  Claim C3, amended: when the overlap is less than the chunk size and at most
  \<open>chunkSize div 2 + 1\<close>, every pass moves \<open>start\<close> forward by at least
  \<open>min_advance chunkSize overlap \<ge> 1\<close>, so the chunker returns for every text, after at
  most \<open>length text div min_advance chunkSize overlap + 1\<close> passes of the loop.
\<close>

theorem splitIntoChunks_terminates:
  assumes "overlap < chunkSize" and "overlap \<le> chunkSize div 2 + 1"
  shows "\<exists>chunks n. splitIntoChunks_run t chunkSize overlap = Some (chunks, n)
           \<and> splitIntoChunks t chunkSize overlap = Some chunks
           \<and> int n \<le> int (length t) div min_advance chunkSize overlap + 1"
proof -
  have d: "0 < min_advance chunkSize overlap"
    using assms by (simp add: min_advance_def)
  from splitIntoChunks_run_passes [OF d, of t]
  obtain cs n where run: "splitIntoChunks_run t chunkSize overlap = Some (cs, n)"
    and n: "n = 0 \<or> (int n - 1) * min_advance chunkSize overlap < int (length (cleanText t))"
    by blast
  from n have "n = 0 \<or> (int n - 1) * min_advance chunkSize overlap < int (length t)"
    using length_cleanText [of t] by auto
  with d have "int n \<le> int (length t) div min_advance chunkSize overlap + 1"
    by (intro passes_div_bound) simp_all
  with run show ?thesis by (simp add: splitIntoChunks_def)
qed

theorem splitIntoChunks_terminates_witness:
  "(3 :: int) < 10 \<and> (3 :: int) \<le> 10 div 2 + 1
   \<and> (\<exists>chunks n. splitIntoChunks_run (js ''aaaaaa.aaaaaaaa'') 10 3 = Some (chunks, n)
         \<and> splitIntoChunks (js ''aaaaaa.aaaaaaaa'') 10 3 = Some chunks
         \<and> int n \<le> int (length (js ''aaaaaa.aaaaaaaa'')) div min_advance 10 3 + 1)
   \<and> splitIntoChunks_run (js ''aaaaaa.aaaaaaaa'') 10 3
       = Some ([js ''aaaaaa.'', js ''aa.aaaaaaa'', js ''aaaa''], 3)
   \<and> int (length (js ''aaaaaa.aaaaaaaa'')) div min_advance 10 3 + 1 = 4"
proof -
  have run: "splitIntoChunks_run (js ''aaaaaa.aaaaaaaa'') 10 3
       = Some ([js ''aaaaaa.'', js ''aa.aaaaaaa'', js ''aaaa''], 3)"
    by code_simp
  have bound: "int (length (js ''aaaaaa.aaaaaaaa'')) div min_advance 10 3 + 1 = 4"
    by (simp add: min_advance_def js_def)
  from splitIntoChunks_terminates [of 3 10 "js ''aaaaaa.aaaaaaaa''"] run bound
  show ?thesis by simp
qed

text \<open>A run of the chunker with chunk size 20 and overlap 5: the first and the third
  chunk end after a full stop, the second has no full stop in its second half.\<close>

lemma splitIntoChunks_example:
  "splitIntoChunks (js ''One. Two three four. Five six seven eight nine. Ten'') 20 5
   = Some [js ''One. Two three four.'', js ''four. Five six seven'',
           js ''seven eight nine.'', js ''nine. Ten'']"
  by code_simp

lemma splitIntoChunks_default_passes:
  "\<exists>chunks n. splitIntoChunks_run t CHUNK_SIZE CHUNK_OVERLAP = Some (chunks, n)
     \<and> int n \<le> int (length t) div 352 + 1"
proof -
  have "min_advance CHUNK_SIZE CHUNK_OVERLAP = 352"
    by (simp add: min_advance_def CHUNK_SIZE_def CHUNK_OVERLAP_def)
  moreover have "0 < min_advance CHUNK_SIZE CHUNK_OVERLAP"
    by (simp add: min_advance_def CHUNK_SIZE_def CHUNK_OVERLAP_def)
  ultimately show ?thesis
    using splitIntoChunks_run_passes [of CHUNK_SIZE CHUNK_OVERLAP t]
      passes_div_bound [of 352 _ "int (length t)"] length_cleanText [of t]
    by (metis (no_types, opaque_lifting) le_less_trans of_nat_0_le_iff of_nat_le_iff
        less_le_trans order_less_le_trans)
qed

lemma splitIntoChunks_default_returns:
  "\<exists>chunks. splitIntoChunks t CHUNK_SIZE CHUNK_OVERLAP = Some chunks"
  using splitIntoChunks_default_passes [of t] by (auto simp: splitIntoChunks_def)

subsection \<open>The paragraph-aggregating chunker\<close>

text \<open>
  Claim C7. Every chunk is claimed to have \<open>0 \<le> charStart \<le> charEnd \<le> length text\<close>.
  The code computes \<open>charStart\<close> as \<open>text.indexOf(currentChunk)\<close>, and after the first
  flush the buffer starts with overlap words joined by spaces, so it is not a substring
  of the text: for the text \<open>aaa bbb\n\nccc\<close> with chunk size 5 and overlap 5 the second
  chunk \<open>bbb ccc\<close> gets \<open>charStart = -1\<close> and \<open>charEnd = 6\<close>.
\<close>

theorem chunkDocument_negative_offset:
  "chunkDocument (js ''aaa bbb'' @ [10, 10] @ js ''ccc'')
     \<lparr>opt_chunkSize = Some 5, opt_overlap = Some 5, opt_separator = None\<rparr>
   = [\<lparr>chunk_id = 0, content = js ''aaa bbb'', charStart = 0, charEnd = 7\<rparr>,
      \<lparr>chunk_id = 1, content = js ''bbb ccc'', charStart = - 1, charEnd = 6\<rparr>]"
  by code_simp

subsection \<open>The embedding gateway\<close>

lemma fetch_embedContent_sent [simp]:
  "fetch_embedContent respond sent t = (respond (length sent), sent @ [t])"
  by (simp add: fetch_embedContent_def)

lemma pushed_embedding_StatusOk: "pushed_embedding (StatusOk ej) = values_or_null ej"
  by (cases ej) simp_all

lemma generateEmbedding_configured:
  assumes "isConfigured env gemini"
  shows "embedding (fst (generateEmbedding env respond sent t)) = pushed_embedding (respond (length sent))"
    and "snd (generateEmbedding env respond sent t) = sent @ [t]"
  using assms
  by (auto simp: generateEmbedding_def pushed_embedding_StatusOk split: fetch_outcome.splits)

lemma generateEmbedding_all_configured:
  assumes "isConfigured env gemini"
  shows "generateEmbedding_all env respond sent texts =
           (fst (generateEmbedding_all env respond sent texts), sent @ texts)
         \<and> map embedding (fst (generateEmbedding_all env respond sent texts)) =
           map (\<lambda>k. pushed_embedding (respond (length sent + k))) [0..<length texts]"
proof (induction texts arbitrary: sent)
  case Nil
  show ?case by simp
next
  case (Cons t ts)
  obtain r s1 where g: "generateEmbedding env respond sent t = (r, s1)"
    by (cases "generateEmbedding env respond sent t")
  with generateEmbedding_configured [OF assms, of respond sent t]
  have r: "embedding r = pushed_embedding (respond (length sent))" and s1: "s1 = sent @ [t]"
    by simp_all
  obtain rs s2 where a: "generateEmbedding_all env respond s1 ts = (rs, s2)"
    by (cases "generateEmbedding_all env respond s1 ts")
  with Cons.IH [of s1]
  have s2: "s2 = s1 @ ts"
    and rs: "map embedding rs = map (\<lambda>k. pushed_embedding (respond (length s1 + k))) [0..<length ts]"
    by simp_all
  have "map (\<lambda>k. pushed_embedding (respond (length sent + k))) [0..<length (t # ts)]
        = pushed_embedding (respond (length sent))
          # map (\<lambda>k. pushed_embedding (respond (length sent + Suc k))) [0..<length ts]"
    by (simp add: upt_conv_Cons map_Suc_upt [symmetric] del: upt_Suc)
  with g a r rs s1 s2 show ?case by simp
qed

lemma embed_chunks_results:
  "embed_chunks respond sent cs =
     (map (\<lambda>k. pushed_embedding (respond (length sent + k))) [0..<length cs], sent @ cs)"
proof (induction cs arbitrary: sent)
  case Nil
  show ?case by simp
next
  case (Cons c cs)
  have "map (\<lambda>k. pushed_embedding (respond (length sent + k))) [0..<length (c # cs)]
        = pushed_embedding (respond (length sent))
          # map (\<lambda>k. pushed_embedding (respond (length sent + Suc k))) [0..<length cs]"
    by (simp add: upt_conv_Cons map_Suc_upt [symmetric] del: upt_Suc)
  with Cons.IH [of "sent @ [c]"] show ?case by simp
qed

lemma generateEmbeddings_configured:
  assumes "isConfigured env gemini"
  shows "generateEmbeddings env respond sent texts =
           (\<lparr>embeddings = map (\<lambda>k. pushed_embedding (respond (length sent + k))) [0..<length texts],
             batch_error = None\<rparr>, sent @ texts)"
proof -
  obtain rs s where a: "generateEmbedding_all env respond sent texts = (rs, s)"
    by (cases "generateEmbedding_all env respond sent texts")
  with generateEmbedding_all_configured [OF assms, of respond sent texts]
  have "s = sent @ texts"
    and "map embedding rs = map (\<lambda>k. pushed_embedding (respond (length sent + k))) [0..<length texts]"
    by simp_all
  with a assms show ?thesis by (simp add: generateEmbeddings_def)
qed

lemma generateEmbeddings_processor_configured:
  assumes "truthy (GEMINI_API_KEY penv)"
  shows "generateEmbeddings_processor penv respond sent cs =
           (Inr (map (\<lambda>k. pushed_embedding (respond (length sent + k))) [0..<length cs]), sent @ cs)"
  using assms by (simp add: generateEmbeddings_processor_def embed_chunks_results)

text \<open>
  Claim C9. Without a credential the gateway fails with a configuration error and makes
  no request: \<open>generateEmbedding\<close> of the Gemini client returns the error
  \<open>API key not configured\<close> and \<open>generateQueryEmbedding\<close> of the retriever throws
  \<open>GEMINI_API_KEY is required\<close>, both before the \<open>fetch\<close>, so the list of requests sent is
  unchanged and the outcome does not depend on the network. The two batch functions do
  the same: the one of the Gemini client returns the error with no embeddings, the one
  of the document processor throws.
\<close>

theorem no_credential_no_request:
  assumes "\<not> isConfigured env gemini" and "\<not> truthy (GEMINI_API_KEY penv)"
  shows "generateEmbedding env respond sent t =
           (\<lparr>embedding = None, error = Some (js ''API key not configured'')\<rparr>, sent)
         \<and> generateQueryEmbedding penv respond sent query =
           (Inl (js ''GEMINI_API_KEY is required''), sent)
         \<and> generateEmbeddings env respond sent texts =
           (\<lparr>embeddings = [], batch_error = Some (js ''API key not configured'')\<rparr>, sent)
         \<and> generateEmbeddings_processor penv respond sent texts =
           (Inl (js ''GEMINI_API_KEY is required for embeddings''), sent)"
  using assms
  by (simp add: generateEmbedding_def generateQueryEmbedding_def generateEmbeddings_def
      generateEmbeddings_processor_def)

theorem no_credential_no_request_witness:
  "\<not> isConfigured \<lparr>ENV_SUPABASE_URL = js ''u'', ENV_SUPABASE_ANON_KEY = js ''a'',
        ENV_GEMINI_API_KEY = [], ENV_MAPS_API_KEY = []\<rparr> gemini
   \<and> \<not> truthy (GEMINI_API_KEY \<lparr>GEMINI_API_KEY = None, SUPABASE_URL = Some (js ''u''),
        SUPABASE_SERVICE_ROLE_KEY = Some (js ''s'')\<rparr>)
   \<and> generateEmbedding \<lparr>ENV_SUPABASE_URL = js ''u'', ENV_SUPABASE_ANON_KEY = js ''a'',
        ENV_GEMINI_API_KEY = [], ENV_MAPS_API_KEY = []\<rparr>
        (\<lambda>k. StatusOk (Values [1, 0])) [js ''earlier''] (js ''villa'')
       = (\<lparr>embedding = None, error = Some (js ''API key not configured'')\<rparr>, [js ''earlier''])
   \<and> generateQueryEmbedding \<lparr>GEMINI_API_KEY = None, SUPABASE_URL = Some (js ''u''),
        SUPABASE_SERVICE_ROLE_KEY = Some (js ''s'')\<rparr>
        (\<lambda>k. StatusOk (Values [1, 0])) [js ''earlier''] (js ''price'')
       = (Inl (js ''GEMINI_API_KEY is required''), [js ''earlier''])"
proof -
  have a: "\<not> isConfigured \<lparr>ENV_SUPABASE_URL = js ''u'', ENV_SUPABASE_ANON_KEY = js ''a'',
        ENV_GEMINI_API_KEY = [], ENV_MAPS_API_KEY = []\<rparr> gemini"
    by simp
  have b: "\<not> truthy (GEMINI_API_KEY \<lparr>GEMINI_API_KEY = None, SUPABASE_URL = Some (js ''u''),
        SUPABASE_SERVICE_ROLE_KEY = Some (js ''s'')\<rparr>)"
    by (simp add: truthy_def)
  from no_credential_no_request [OF a b] a b show ?thesis by blast
qed

text \<open>
  Claim C5, as stated: for every sequence of texts the batch returns as many results as
  texts. Without a credential it does not: \<open>generateEmbeddings\<close> of the Gemini client
  returns an empty list for one text, and \<open>generateEmbeddings\<close> of the document
  processor throws.
\<close>

theorem batch_embedding_counterexample:
  "embeddings (fst (generateEmbeddings
       \<lparr>ENV_SUPABASE_URL = js ''u'', ENV_SUPABASE_ANON_KEY = js ''a'',
        ENV_GEMINI_API_KEY = [], ENV_MAPS_API_KEY = []\<rparr>
       (\<lambda>k. StatusOk (Values [1, 0])) [] [js ''villa''])) = []
   \<and> fst (generateEmbeddings_processor
       \<lparr>GEMINI_API_KEY = None, SUPABASE_URL = Some (js ''u''),
        SUPABASE_SERVICE_ROLE_KEY = Some (js ''s'')\<rparr>
       (\<lambda>k. StatusOk (Values [1, 0])) [] [js ''villa''])
     = Inl (js ''GEMINI_API_KEY is required for embeddings'')"
  by (simp add: generateEmbeddings_def generateEmbeddings_processor_def truthy_def)

text \<open>
  Claim C5, amended: with a credential configured, both batch functions make one request
  per text, in the order of the texts, and return one result per text, in that order:
  result \<open>k\<close> is the embedding of the response to request \<open>k\<close>, or null when that request
  failed. So when the responses differ for item \<open>i\<close> only, the result of any other item
  \<open>j\<close> is the same.
\<close>

theorem batch_embedding_order:
  assumes "isConfigured env gemini" and "truthy (GEMINI_API_KEY penv)"
      and "\<forall>k. k \<noteq> length sent + i \<longrightarrow> respond' k = respond k"
      and "j < length texts" and "j \<noteq> i"
  shows "generateEmbeddings env respond sent texts =
           (\<lparr>embeddings = map (\<lambda>k. pushed_embedding (respond (length sent + k))) [0..<length texts],
             batch_error = None\<rparr>, sent @ texts)
         \<and> generateEmbeddings_processor penv respond sent texts =
           (Inr (map (\<lambda>k. pushed_embedding (respond (length sent + k))) [0..<length texts]),
            sent @ texts)
         \<and> length (embeddings (fst (generateEmbeddings env respond sent texts))) = length texts
         \<and> embeddings (fst (generateEmbeddings env respond' sent texts)) ! j =
           embeddings (fst (generateEmbeddings env respond sent texts)) ! j
         \<and> (\<exists>es es'. fst (generateEmbeddings_processor penv respond sent texts) = Inr es
               \<and> fst (generateEmbeddings_processor penv respond' sent texts) = Inr es'
               \<and> length es = length texts \<and> length es' = length texts \<and> es' ! j = es ! j)"
proof -
  have same: "respond' (length sent + j) = respond (length sent + j)"
    using assms(3,5) by simp
  show ?thesis
    using assms(4) same
    by (simp add: generateEmbeddings_configured [OF assms(1)]
        generateEmbeddings_processor_configured [OF assms(2)])
qed

theorem batch_embedding_order_witness:
  "isConfigured \<lparr>ENV_SUPABASE_URL = js ''u'', ENV_SUPABASE_ANON_KEY = js ''a'',
        ENV_GEMINI_API_KEY = js ''g'', ENV_MAPS_API_KEY = []\<rparr> gemini
   \<and> truthy (GEMINI_API_KEY \<lparr>GEMINI_API_KEY = Some (js ''g''), SUPABASE_URL = Some (js ''u''),
        SUPABASE_SERVICE_ROLE_KEY = Some (js ''s'')\<rparr>)
   \<and> (2 :: nat) < length [js ''a'', js ''b'', js ''c''] \<and> (2 :: nat) \<noteq> 1
   \<and> generateEmbeddings \<lparr>ENV_SUPABASE_URL = js ''u'', ENV_SUPABASE_ANON_KEY = js ''a'',
        ENV_GEMINI_API_KEY = js ''g'', ENV_MAPS_API_KEY = []\<rparr>
        (\<lambda>k. StatusOk (Values [real k])) [] [js ''a'', js ''b'', js ''c'']
       = (\<lparr>embeddings = [Some [0], Some [1], Some [2]], batch_error = None\<rparr>,
          [js ''a'', js ''b'', js ''c''])
   \<and> embeddings (fst (generateEmbeddings \<lparr>ENV_SUPABASE_URL = js ''u'',
        ENV_SUPABASE_ANON_KEY = js ''a'', ENV_GEMINI_API_KEY = js ''g'', ENV_MAPS_API_KEY = []\<rparr>
        (\<lambda>k. if k = 1 then FetchRejected (js ''down'') else StatusOk (Values [real k]))
        [] [js ''a'', js ''b'', js ''c''])) ! 2 = Some [2]"
proof -
  let ?env = "\<lparr>ENV_SUPABASE_URL = js ''u'', ENV_SUPABASE_ANON_KEY = js ''a'',
        ENV_GEMINI_API_KEY = js ''g'', ENV_MAPS_API_KEY = []\<rparr>"
  let ?penv = "\<lparr>GEMINI_API_KEY = Some (js ''g''), SUPABASE_URL = Some (js ''u''),
        SUPABASE_SERVICE_ROLE_KEY = Some (js ''s'')\<rparr>"
  let ?ok = "\<lambda>k. StatusOk (Values [real k])"
  let ?bad = "\<lambda>k. if k = 1 then FetchRejected (js ''down'') else StatusOk (Values [real k])"
  have a: "isConfigured ?env gemini" by (simp add: js_def)
  have b: "truthy (GEMINI_API_KEY ?penv)" by (simp add: truthy_def js_def)
  have c: "\<forall>k. k \<noteq> length ([] :: jsstring list) + 1 \<longrightarrow> ?bad k = ?ok k" by simp
  have d: "(2 :: nat) < length [js ''a'', js ''b'', js ''c'']" by simp
  have e: "(2 :: nat) \<noteq> 1" by simp
  have upt3: "[0..<3] = [0, 1, 2]" by (simp add: upt_rec)
  from batch_embedding_order [OF a b c d e]
  have "generateEmbeddings ?env ?ok [] [js ''a'', js ''b'', js ''c'']
          = (\<lparr>embeddings = [Some [0], Some [1], Some [2]], batch_error = None\<rparr>,
             [js ''a'', js ''b'', js ''c''])"
    and "embeddings (fst (generateEmbeddings ?env ?bad [] [js ''a'', js ''b'', js ''c''])) ! 2
          = embeddings (fst (generateEmbeddings ?env ?ok [] [js ''a'', js ''b'', js ''c''])) ! 2"
    by (simp_all add: upt3)
  with a b c d e show ?thesis by simp
qed

subsection \<open>Storage of the chunks\<close>

lemma insert_chunk_rows:
  assumes "insert_chunk insert_ok db documentId c e documentType = (ok, db')"
  shows "document_chunks db' = document_chunks db @
           (if ok then [\<lparr>dc_id = insert_attempts db, dc_document_id = documentId,
                         dc_content = c, dc_embedding = e, dc_document_type = documentType\<rparr>]
            else [])"
  using assms by (auto simp: insert_chunk_def split: if_splits)

lemma stored_embeddings_Cons:
  "stored_embeddings (e # es) (Suc n) = (if e \<noteq> None then 1 else 0) + stored_embeddings es n"
  by (simp add: stored_embeddings_def)

lemma stored_embeddings_Nil: "stored_embeddings [] n = 0"
  by (simp add: stored_embeddings_def)

lemma save_loop_rows:
  assumes "save_loop insert_ok documentId documentType cs es (n, db) = (n', db')"
  shows "\<exists>new. document_chunks db' = document_chunks db @ new
           \<and> (\<forall>r\<in>set new. dc_embedding r \<noteq> None)
           \<and> n' = n + length new
           \<and> length new \<le> stored_embeddings es (length cs)"
  using assms
proof (induction cs arbitrary: es n db)
  case Nil
  then show ?case by simp
next
  case (Cons c cs)
  show ?case
  proof (cases "case es of [] \<Rightarrow> None | e # _ \<Rightarrow> e")
    case None
    with Cons.prems
    have "save_loop insert_ok documentId documentType cs (tl es) (n, db) = (n', db')"
      by simp
    from Cons.IH [OF this] obtain new where new: "document_chunks db' = document_chunks db @ new"
      "\<forall>r\<in>set new. dc_embedding r \<noteq> None" "n' = n + length new"
      "length new \<le> stored_embeddings (tl es) (length cs)"
      by blast
    have "stored_embeddings (tl es) (length cs) \<le> stored_embeddings es (length (c # cs))"
      by (cases es) (simp_all add: stored_embeddings_Cons stored_embeddings_Nil)
    with new show ?thesis by (intro exI [of _ new]) simp
  next
    case (Some v)
    then obtain es' where es: "es = Some v # es'"
      by (cases es) (auto split: list.splits)
    obtain ok db1 where ins: "insert_chunk insert_ok db documentId c (Some v) documentType = (ok, db1)"
      by (cases "insert_chunk insert_ok db documentId c (Some v) documentType")
    with Cons.prems es
    have "save_loop insert_ok documentId documentType cs es' (if ok then Suc n else n, db1)
            = (n', db')"
      by simp
    from Cons.IH [OF this] obtain new where new: "document_chunks db' = document_chunks db1 @ new"
      "\<forall>r\<in>set new. dc_embedding r \<noteq> None" "n' = (if ok then Suc n else n) + length new"
      "length new \<le> stored_embeddings es' (length cs)"
      by blast
    let ?first = "if ok then [\<lparr>dc_id = insert_attempts db, dc_document_id = documentId,
                         dc_content = c, dc_embedding = Some v, dc_document_type = documentType\<rparr>]
            else []"
    have "document_chunks db' = document_chunks db @ (?first @ new)"
      using new(1) insert_chunk_rows [OF ins] by simp
    moreover have "\<forall>r\<in>set (?first @ new). dc_embedding r \<noteq> None"
      using new(2) by auto
    moreover have "n' = n + length (?first @ new)"
      using new(3) by simp
    moreover have "length (?first @ new) \<le> stored_embeddings es (length (c # cs))"
      using new(4) es by (simp add: stored_embeddings_Cons)
    ultimately show ?thesis by blast
  qed
qed

lemma stored_embeddings_less:
  assumes "j < length es" and "es ! j = None" and "length es = n"
  shows "stored_embeddings es n < n"
proof -
  have "es ! j \<in> set es" using assms(1) by simp
  with assms(2) have "\<exists>e\<in>set es. \<not> e \<noteq> None" by auto
  then have "length (filter (\<lambda>e. e \<noteq> None) es) < length es"
    by (intro length_filter_less) auto
  with assms(3) show ?thesis by (simp add: stored_embeddings_def)
qed

lemma processDocument_success:
  assumes run: "processDocument createClient penv respond insert_ok sent db extracted documentId
                  documentType
                  = Some (res, sent', db')"
      and ok: "success res"
  shows "\<exists>t chunks es savedCount.
           extracted = Inr t
           \<and> splitIntoChunks t CHUNK_SIZE CHUNK_OVERLAP = Some chunks
           \<and> generateEmbeddings_processor penv respond sent chunks = (Inr es, sent')
           \<and> saveChunksToSupabase createClient penv insert_ok db chunks es documentId
               documentType
               = Inr (savedCount, db')
           \<and> res = \<lparr>success = True, chunks_created = savedCount,
                     total_chunks = Some (length chunks), process_error = None\<rparr>"
proof (cases extracted)
  case (Inl msg)
  with run have "res = \<lparr>success = False, chunks_created = 0, total_chunks = None,
                         process_error = Some msg\<rparr>"
    by (simp add: processDocument_def)
  with ok show ?thesis by simp
next
  case (Inr t)
  show ?thesis
  proof (cases "length t < 10")
    case True
    with run Inr have "success res = False"
      by (auto simp: processDocument_def)
    with ok show ?thesis by simp
  next
    case long: False
    show ?thesis
    proof (cases "splitIntoChunks t CHUNK_SIZE CHUNK_OVERLAP")
      case None
      with run Inr long show ?thesis by (simp add: processDocument_def)
    next
      case (Some chunks)
      obtain r s where g: "generateEmbeddings_processor penv respond sent chunks = (r, s)"
        by (cases "generateEmbeddings_processor penv respond sent chunks")
      show ?thesis
      proof (cases r)
        case (Inl msg)
        with run Inr long Some g have "success res = False"
          by (auto simp: processDocument_def)
        with ok show ?thesis by simp
      next
        case es: (Inr es)
        show ?thesis
        proof (cases "saveChunksToSupabase createClient penv insert_ok db chunks es documentId
               documentType")
          case (Inl msg)
          with run Inr long Some g es have "success res = False"
            by (auto simp: processDocument_def)
          with ok show ?thesis by simp
        next
          case saved: (Inr p)
          obtain savedCount db1 where p: "p = (savedCount, db1)" by (cases p)
          with run Inr long Some g es saved
          have "res = \<lparr>success = True, chunks_created = savedCount,
                        total_chunks = Some (length chunks), process_error = None\<rparr>"
            and "sent' = s" and "db' = db1"
            by (simp_all add: processDocument_def)
          with Inr Some g es saved p show ?thesis by simp
        qed
      qed
    qed
  qed
qed

lemma stored_embeddings_le: "stored_embeddings es n \<le> n"
proof -
  have "length (filter (\<lambda>e. e \<noteq> None) (take n es)) \<le> length (take n es)"
    by (rule length_filter_le)
  then show ?thesis by (simp add: stored_embeddings_def)
qed

text \<open>
  The document processor drops the chunks whose embedding failed: a run of
  \<open>processDocument\<close> that reports success has added only rows with an embedding,
  reports their number as
  \<open>chunks_created\<close>, and reports fewer chunks created than chunks in total when the
  embedding of some chunk failed.
\<close>

lemma processDocument_drops_failed:
  assumes run: "processDocument createClient penv respond insert_ok sent db extracted documentId
                  documentType
                  = Some (res, sent', db')"
      and ok: "success res"
  shows "\<exists>new total. document_chunks db' = document_chunks db @ new
           \<and> (\<forall>r\<in>set new. dc_embedding r \<noteq> None)
           \<and> chunks_created res = length new
           \<and> total_chunks res = Some total
           \<and> chunks_created res \<le> total
           \<and> ((\<exists>j<total. pushed_embedding (respond (length sent + j)) = None)
                \<longrightarrow> chunks_created res < total)"
proof -
  from processDocument_success [OF run ok] obtain t chunks es savedCount
    where emb: "generateEmbeddings_processor penv respond sent chunks = (Inr es, sent')"
      and save: "saveChunksToSupabase createClient penv insert_ok db chunks es documentId
               documentType
                   = Inr (savedCount, db')"
      and res: "res = \<lparr>success = True, chunks_created = savedCount,
                       total_chunks = Some (length chunks), process_error = None\<rparr>"
    by blast
  let ?es = "map (\<lambda>k. pushed_embedding (respond (length sent + k))) [0..<length chunks]"
  have key: "truthy (GEMINI_API_KEY penv)"
    using emb by (auto simp: generateEmbeddings_processor_def split: if_splits)
  from emb generateEmbeddings_processor_configured [OF key, of respond sent chunks]
  have es: "es = ?es" by simp
  from save have "save_loop insert_ok documentId documentType chunks es (0, db) = (savedCount, db')"
    by (cases "createServiceClient createClient penv") (simp_all add: saveChunksToSupabase_def)
  from save_loop_rows [OF this] obtain new where new: "document_chunks db' = document_chunks db @ new"
    "\<forall>r\<in>set new. dc_embedding r \<noteq> None" "savedCount = length new"
    "length new \<le> stored_embeddings es (length chunks)"
    by auto
  have le: "length new \<le> length chunks"
    using new(4) stored_embeddings_le [of es "length chunks"] by linarith
  have less: "length new < length chunks"
    if "\<exists>j<length chunks. pushed_embedding (respond (length sent + j)) = None"
  proof -
    from that obtain j where j: "j < length chunks"
      and none: "pushed_embedding (respond (length sent + j)) = None"
      by blast
    have "stored_embeddings es (length chunks) < length chunks"
    proof (rule stored_embeddings_less [of j])
      show "j < length es" using j es by simp
      show "es ! j = None" using j none es by simp
      show "length es = length chunks" using es by simp
    qed
    with new(4) show ?thesis by linarith
  qed
  have "chunks_created res = length new" and "total_chunks res = Some (length chunks)"
    using res new(3) by simp_all
  with new(1,2) le less show ?thesis
    by (intro exI [of _ new] exI [of _ "length chunks"]) simp
qed

text \<open>\<open>processDocument\<close> always returns: with the default chunk size and overlap the
  chunker terminates.\<close>

lemma processDocument_returns:
  "\<exists>r. processDocument createClient penv respond insert_ok sent db extracted documentId
                  documentType = Some r"
proof (cases extracted)
  case (Inl msg)
  then show ?thesis by (simp add: processDocument_def)
next
  case (Inr t)
  from splitIntoChunks_default_returns [of t] obtain chunks
    where sp: "splitIntoChunks t CHUNK_SIZE CHUNK_OVERLAP = Some chunks" by blast
  obtain g s where g: "generateEmbeddings_processor penv respond sent chunks = (g, s)"
    by (cases "generateEmbeddings_processor penv respond sent chunks")
  show ?thesis
  proof (cases "length t < 10")
    case True
    with Inr show ?thesis by (simp add: processDocument_def)
  next
    case False
    show ?thesis
    proof (cases g)
      case (Inl msg)
      with Inr False sp g show ?thesis by (simp add: processDocument_def)
    next
      case es: (Inr es)
      show ?thesis
      proof (cases "saveChunksToSupabase createClient penv insert_ok db chunks es documentId
               documentType")
        case (Inl msg)
        with Inr False sp g es show ?thesis by (simp add: processDocument_def)
      next
        case (Inr p)
        with \<open>extracted = Inr t\<close> False sp g es show ?thesis
          by (cases p) (simp add: processDocument_def)
      qed
    qed
  qed
qed

text \<open>
  Claim C2. A chunk whose embedding failed is claimed never to be inserted.
  \<open>storeVectors\<close> of the RAG pipeline inserts one row per chunk with
  \<open>embedding: embeddings[index]\<close>, whatever it is: when the request for the second of two
  chunks fails, both rows are inserted, the second with a null embedding, and the result
  is a success with count 2.
\<close>

theorem storeVectors_inserts_null_embedding:
  "storeVectors
     \<lparr>ENV_SUPABASE_URL = js ''u'', ENV_SUPABASE_ANON_KEY = js ''a'',
      ENV_GEMINI_API_KEY = js ''g'', ENV_MAPS_API_KEY = []\<rparr>
     (\<lambda>k. if k = 1 then FetchRejected (js ''down'') else StatusOk (Values [1, 0]))
     True None [] [] (js ''doc'')
     [\<lparr>chunk_id = 0, content = js ''a'', charStart = 0, charEnd = 1\<rparr>,
      \<lparr>chunk_id = 1, content = js ''b'', charStart = 3, charEnd = 4\<rparr>]
   = (\<lparr>store_success = True, store_count = Some 2, store_error = None\<rparr>,
      [js ''a'', js ''b''],
      [\<lparr>er_document_id = js ''doc'', er_chunk_index = 0, er_content = js ''a'',
        er_embedding = Some [1, 0], er_char_start = 0, er_char_end = 1\<rparr>,
       \<lparr>er_document_id = js ''doc'', er_chunk_index = 1, er_content = js ''b'',
        er_embedding = None, er_char_start = 3, er_char_end = 4\<rparr>])"
proof -
  have upt2: "[0..<2] = [0, 1]" by (simp add: upt_rec)
  have conf: "isConfigured \<lparr>ENV_SUPABASE_URL = js ''u'', ENV_SUPABASE_ANON_KEY = js ''a'',
      ENV_GEMINI_API_KEY = js ''g'', ENV_MAPS_API_KEY = []\<rparr> gemini"
    by (simp add: js_def)
  show ?thesis
    by (simp add: storeVectors_def generateEmbeddings_configured [OF conf] prepare_rows_def
        nth_or_undefined_def truthy_def upt2) (simp add: js_def)
qed

theorem storeVectors_inserts_null_embedding_witness:
  "isConfigured \<lparr>ENV_SUPABASE_URL = js ''u'', ENV_SUPABASE_ANON_KEY = js ''a'',
      ENV_GEMINI_API_KEY = js ''g'', ENV_MAPS_API_KEY = []\<rparr> supabase
   \<and> isConfigured \<lparr>ENV_SUPABASE_URL = js ''u'', ENV_SUPABASE_ANON_KEY = js ''a'',
      ENV_GEMINI_API_KEY = js ''g'', ENV_MAPS_API_KEY = []\<rparr> gemini
   \<and> map er_embedding (snd (snd (storeVectors
     \<lparr>ENV_SUPABASE_URL = js ''u'', ENV_SUPABASE_ANON_KEY = js ''a'',
      ENV_GEMINI_API_KEY = js ''g'', ENV_MAPS_API_KEY = []\<rparr>
     (\<lambda>k. if k = 1 then FetchRejected (js ''down'') else StatusOk (Values [1, 0]))
     True None [] [] (js ''doc'')
     [\<lparr>chunk_id = 0, content = js ''a'', charStart = 0, charEnd = 1\<rparr>,
      \<lparr>chunk_id = 1, content = js ''b'', charStart = 3, charEnd = 4\<rparr>])))
     = [Some [1, 0], None]
   \<and> store_count (fst (storeVectors
     \<lparr>ENV_SUPABASE_URL = js ''u'', ENV_SUPABASE_ANON_KEY = js ''a'',
      ENV_GEMINI_API_KEY = js ''g'', ENV_MAPS_API_KEY = []\<rparr>
     (\<lambda>k. if k = 1 then FetchRejected (js ''down'') else StatusOk (Values [1, 0]))
     True None [] [] (js ''doc'')
     [\<lparr>chunk_id = 0, content = js ''a'', charStart = 0, charEnd = 1\<rparr>,
      \<lparr>chunk_id = 1, content = js ''b'', charStart = 3, charEnd = 4\<rparr>])) = Some 2"
  using storeVectors_inserts_null_embedding by (simp add: js_def)

subsection \<open>The similarity search\<close>


lemma float8_le_simps [simp]:
  "Finite a \<le> Finite b \<longleftrightarrow> a \<le> b"
  "x \<le> NaN"
  "\<not> NaN \<le> Finite b"
  by (auto simp: less_eq_float8_def split: float8.splits)






lemma descending_nan_last_numbers:
  "descending_nan_last (Finite a) (Finite b) \<longleftrightarrow> b \<le> a"
  by (simp add: descending_nan_last_def)



lemma length_padded: "length v \<le> 768 \<Longrightarrow> length (padded v) = 768"
  by (simp add: padded_def)




subsection \<open>The retriever\<close>

lemma fallback_not_vector_search: "js ''fallback'' \<noteq> js ''vector_search''"
  by (simp add: js_def)

lemma retrieveContext_try_embedding_failed:
  assumes "generateQueryEmbedding penv respond sent query = (Inl msg, sent')"
  shows "retrieveContext_try createClient penv respond db sent asked query topK
           = (Inl msg, sent', asked)"
  using assms by (simp add: retrieveContext_try_def)

lemma retrieveContext_try_no_client:
  assumes "generateQueryEmbedding penv respond sent query = (Inr qe, sent')"
      and "createServiceClient createClient penv = Inl msg"
  shows "retrieveContext_try createClient penv respond db sent asked query topK
           = (Inl msg, sent', asked)"
  using assms by (simp add: retrieveContext_try_def)

lemma retrieveContext_try_vector_search:
  assumes "generateQueryEmbedding penv respond sent query = (Inr qe, sent')"
      and "createServiceClient createClient penv = Inr u"
      and "rpc_match_documents db qe (1 / 2) topK = PgData d"
  shows "retrieveContext_try createClient penv respond db sent asked query topK
           = (Inr \<lparr>rag_context = context_of d, rag_chunks = count_of d,
                   rag_source = Some (js ''vector_search''), rag_error = None\<rparr>,
              sent', asked @ [RpcMatchDocuments qe (1 / 2) topK])"
  using assms by (simp add: retrieveContext_try_def)

lemma retrieveContext_try_fallback_failed:
  assumes "generateQueryEmbedding penv respond sent query = (Inr qe, sent')"
      and "createServiceClient createClient penv = Inr u"
      and "rpc_match_documents db qe (1 / 2) topK = PgError e"
      and "select_document_chunks db topK = PgError fallbackError"
  shows "retrieveContext_try createClient penv respond db sent asked query topK
           = (Inl fallbackError, sent',
              asked @ [RpcMatchDocuments qe (1 / 2) topK, SelectDocumentChunks topK])"
  using assms by (simp add: retrieveContext_try_def)

lemma retrieveContext_try_rpc_rejected:
  assumes "generateQueryEmbedding penv respond sent query = (Inr qe, sent')"
      and "createServiceClient createClient penv = Inr u"
      and "rpc_match_documents db qe (1 / 2) topK = PgRejected msg"
  shows "retrieveContext_try createClient penv respond db sent asked query topK
           = (Inl msg, sent', asked @ [RpcMatchDocuments qe (1 / 2) topK])"
  using assms by (simp add: retrieveContext_try_def)

lemma retrieveContext_try_fallback_rejected:
  assumes "generateQueryEmbedding penv respond sent query = (Inr qe, sent')"
      and "createServiceClient createClient penv = Inr u"
      and "rpc_match_documents db qe (1 / 2) topK = PgError e"
      and "select_document_chunks db topK = PgRejected msg"
  shows "retrieveContext_try createClient penv respond db sent asked query topK
           = (Inl msg, sent',
              asked @ [RpcMatchDocuments qe (1 / 2) topK, SelectDocumentChunks topK])"
  using assms by (simp add: retrieveContext_try_def)

lemma retrieveContext_try_fallback:
  assumes "generateQueryEmbedding penv respond sent query = (Inr qe, sent')"
      and "createServiceClient createClient penv = Inr u"
      and "rpc_match_documents db qe (1 / 2) topK = PgError e"
      and "select_document_chunks db topK = PgData d"
  shows "retrieveContext_try createClient penv respond db sent asked query topK
           = (Inr \<lparr>rag_context = context_of d, rag_chunks = count_of d,
                   rag_source = Some (js ''fallback''), rag_error = None\<rparr>,
              sent', asked @ [RpcMatchDocuments qe (1 / 2) topK, SelectDocumentChunks topK])"
  using assms by (simp add: retrieveContext_try_def)

text \<open>The seven ways through \<open>retrieveContext\<close>.\<close>

lemma retrieveContext_cases:
  obtains
    (embedding_failed) msg sent' where
      "generateQueryEmbedding penv respond sent query = (Inl msg, sent')"
      "retrieveContext createClient penv respond db sent asked query topK
         = (Inr (retrieval_error msg), sent', asked)"
  | (no_client) qe sent' msg where
      "generateQueryEmbedding penv respond sent query = (Inr qe, sent')"
      "createServiceClient createClient penv = Inl msg"
      "retrieveContext createClient penv respond db sent asked query topK
         = (Inr (retrieval_error msg), sent', asked)"
  | (vector_search) qe sent' d where
      "generateQueryEmbedding penv respond sent query = (Inr qe, sent')"
      "createServiceClient createClient penv = Inr ()"
      "rpc_match_documents db qe (1 / 2) topK = PgData d"
      "retrieveContext createClient penv respond db sent asked query topK
         = (Inr \<lparr>rag_context = context_of d, rag_chunks = count_of d,
                 rag_source = Some (js ''vector_search''), rag_error = None\<rparr>,
            sent', asked @ [RpcMatchDocuments qe (1 / 2) topK])"
  | (rpc_rejected) qe sent' msg where
      "generateQueryEmbedding penv respond sent query = (Inr qe, sent')"
      "createServiceClient createClient penv = Inr ()"
      "rpc_match_documents db qe (1 / 2) topK = PgRejected msg"
      "retrieveContext createClient penv respond db sent asked query topK
         = (Inr (retrieval_error msg), sent', asked @ [RpcMatchDocuments qe (1 / 2) topK])"
  | (fallback_rejected) qe sent' e msg where
      "generateQueryEmbedding penv respond sent query = (Inr qe, sent')"
      "createServiceClient createClient penv = Inr ()"
      "rpc_match_documents db qe (1 / 2) topK = PgError e"
      "select_document_chunks db topK = PgRejected msg"
      "retrieveContext createClient penv respond db sent asked query topK
         = (Inr (retrieval_error msg), sent',
            asked @ [RpcMatchDocuments qe (1 / 2) topK, SelectDocumentChunks topK])"
  | (fallback_failed) qe sent' e fallbackError where
      "generateQueryEmbedding penv respond sent query = (Inr qe, sent')"
      "createServiceClient createClient penv = Inr ()"
      "rpc_match_documents db qe (1 / 2) topK = PgError e"
      "select_document_chunks db topK = PgError fallbackError"
      "retrieveContext createClient penv respond db sent asked query topK
         = (Inr (retrieval_error fallbackError), sent',
            asked @ [RpcMatchDocuments qe (1 / 2) topK, SelectDocumentChunks topK])"
  | (fallback) qe sent' e d where
      "generateQueryEmbedding penv respond sent query = (Inr qe, sent')"
      "createServiceClient createClient penv = Inr ()"
      "rpc_match_documents db qe (1 / 2) topK = PgError e"
      "select_document_chunks db topK = PgData d"
      "retrieveContext createClient penv respond db sent asked query topK
         = (Inr \<lparr>rag_context = context_of d, rag_chunks = count_of d,
                 rag_source = Some (js ''fallback''), rag_error = None\<rparr>,
            sent', asked @ [RpcMatchDocuments qe (1 / 2) topK, SelectDocumentChunks topK])"
proof -
  obtain g s where g: "generateQueryEmbedding penv respond sent query = (g, s)"
    by (cases "generateQueryEmbedding penv respond sent query")
  show thesis
  proof (cases g)
    case (Inl msg)
    with g have "generateQueryEmbedding penv respond sent query = (Inl msg, s)" by simp
    then show thesis
      by (rule embedding_failed)
         (simp add: retrieveContext_def retrieveContext_try_embedding_failed g Inl)
  next
    case qe: (Inr qe)
    with g have emb: "generateQueryEmbedding penv respond sent query = (Inr qe, s)" by simp
    show thesis
    proof (cases "createServiceClient createClient penv")
      case (Inl msg)
      from emb Inl show thesis
        by (rule no_client)
           (simp add: retrieveContext_def retrieveContext_try_no_client [OF emb Inl])
    next
      case client: (Inr u)
      then have client': "createServiceClient createClient penv = Inr ()" by simp
      show thesis
      proof (cases "rpc_match_documents db qe (1 / 2) topK")
        case (PgData d)
        from emb client' PgData show thesis
          by (rule vector_search)
             (simp add: retrieveContext_def retrieveContext_try_vector_search [OF emb client PgData])
      next
        case (PgRejected msg)
        from emb client' PgRejected show thesis
          by (rule rpc_rejected)
             (simp add: retrieveContext_def
                retrieveContext_try_rpc_rejected [OF emb client PgRejected])
      next
        case rpc: (PgError e)
        show thesis
        proof (cases "select_document_chunks db topK")
          case (PgError fallbackError)
          from emb client' rpc PgError show thesis
            by (rule fallback_failed)
               (simp add: retrieveContext_def
                  retrieveContext_try_fallback_failed [OF emb client rpc PgError])
        next
          case (PgData d)
          from emb client' rpc PgData show thesis
            by (rule fallback)
               (simp add: retrieveContext_def
                  retrieveContext_try_fallback [OF emb client rpc PgData])
        next
          case (PgRejected msg)
          from emb client' rpc PgRejected show thesis
            by (rule fallback_rejected)
               (simp add: retrieveContext_def
                  retrieveContext_try_fallback_rejected [OF emb client rpc PgRejected])
        qed
      qed
    qed
  qed
qed

lemma retrieveContext_source_fallback:
  assumes run: "retrieveContext createClient penv respond db sent asked query topK
                  = (Inr r, sent', asked')"
      and src: "rag_source r = Some (js ''fallback'')"
  shows "\<exists>d. select_document_chunks db topK = PgData d
           \<and> rag_context r = context_of d \<and> rag_chunks r = count_of d"
proof (cases rule: retrieveContext_cases [of penv respond sent query createClient db asked topK])
  case (embedding_failed msg s)
  with run src show ?thesis by (auto simp: retrieval_error_def)
next
  case (no_client qe s msg)
  with run src show ?thesis by (auto simp: retrieval_error_def)
next
  case (vector_search qe s d)
  with run src fallback_not_vector_search show ?thesis by auto
next
  case (rpc_rejected qe s msg)
  with run src show ?thesis by (auto simp: retrieval_error_def)
next
  case (fallback_rejected qe s e msg)
  with run src show ?thesis by (auto simp: retrieval_error_def)
next
  case (fallback_failed qe s e fallbackError)
  with run src show ?thesis by (auto simp: retrieval_error_def)
next
  case (fallback qe s e d)
  with run show ?thesis by auto
qed

text \<open>
  Claim C1, as stated: when the query embedding and the vector search both fail, the
  result carries the source tag \<open>fallback\<close>. When the embedding request fails, the
  \<open>catch\<close> block returns an empty context, 0 chunks and the error message, and no
  source tag; the database, whose vector search would fail, is not asked at all.
\<close>

theorem retrieveContext_fallback_counterexample:
  "retrieveContext createClient_http
     \<lparr>GEMINI_API_KEY = Some (js ''g''), SUPABASE_URL = Some (js ''https://x.supabase.co''),
      SUPABASE_SERVICE_ROLE_KEY = Some (js ''s'')\<rparr>
     (\<lambda>k. FetchRejected (js ''down''))
     \<lparr>rpc_match_documents = (\<lambda>e t k. PgError (js ''no function'')),
      select_document_chunks = (\<lambda>k. PgData (Some [js ''x'']))\<rparr>
     [] [] (js ''refund policy'') 5
   = (Inr \<lparr>rag_context = [], rag_chunks = 0, rag_source = None,
            rag_error = Some (js ''down'')\<rparr>,
      [js ''refund policy''], [])"
  by (simp add: retrieveContext_def retrieveContext_try_def generateQueryEmbedding_def
      truthy_def retrieval_error_def)
     (simp add: js_def)

text \<open>
  Claim C1, amended: \<open>retrieveContext\<close> never lets an error reach its caller: it always
  returns a result object. When the query embedding fails, the object has an empty
  context, 0 chunks, the error message and no source tag, and no request is made to the
  database, neither the vector search nor the fallback read. The source tag \<open>fallback\<close>
  is returned when the embedding succeeds, the client is created, the vector search fails
  and the fallback read succeeds; the context and the chunk count are then those of the
  fallback read, and the two requests are the only ones made.
\<close>

theorem retrieveContext_degrades:
  "(\<exists>r. fst (retrieveContext createClient penv respond db sent asked query topK) = Inr r)
   \<and> (generateQueryEmbedding penv respond sent query = (Inl msg, sent') \<longrightarrow>
        retrieveContext createClient penv respond db sent asked query topK =
          (Inr \<lparr>rag_context = [], rag_chunks = 0, rag_source = None, rag_error = Some msg\<rparr>,
           sent', asked))
   \<and> (generateQueryEmbedding penv respond sent query = (Inr qe, sent')
        \<and> createServiceClient createClient penv = Inr ()
        \<and> rpc_match_documents db qe (1 / 2) topK = PgError e
        \<and> select_document_chunks db topK = PgData d \<longrightarrow>
        retrieveContext createClient penv respond db sent asked query topK =
          (Inr \<lparr>rag_context = context_of d, rag_chunks = count_of d,
                 rag_source = Some (js ''fallback''), rag_error = None\<rparr>,
           sent', asked @ [RpcMatchDocuments qe (1 / 2) topK, SelectDocumentChunks topK]))"
proof (intro conjI impI)
  show "\<exists>r. fst (retrieveContext createClient penv respond db sent asked query topK) = Inr r"
    by (cases rule: retrieveContext_cases [of penv respond sent query createClient db asked topK])
       simp_all
next
  assume "generateQueryEmbedding penv respond sent query = (Inl msg, sent')"
  then show "retrieveContext createClient penv respond db sent asked query topK =
          (Inr \<lparr>rag_context = [], rag_chunks = 0, rag_source = None, rag_error = Some msg\<rparr>,
           sent', asked)"
    by (simp add: retrieveContext_def retrieveContext_try_embedding_failed retrieval_error_def)
next
  assume "generateQueryEmbedding penv respond sent query = (Inr qe, sent')
        \<and> createServiceClient createClient penv = Inr ()
        \<and> rpc_match_documents db qe (1 / 2) topK = PgError e
        \<and> select_document_chunks db topK = PgData d"
  then show "retrieveContext createClient penv respond db sent asked query topK =
          (Inr \<lparr>rag_context = context_of d, rag_chunks = count_of d,
                 rag_source = Some (js ''fallback''), rag_error = None\<rparr>,
           sent', asked @ [RpcMatchDocuments qe (1 / 2) topK, SelectDocumentChunks topK])"
    by (simp add: retrieveContext_def retrieveContext_try_fallback)
qed

theorem retrieveContext_degrades_witness:
  "generateQueryEmbedding
     \<lparr>GEMINI_API_KEY = None, SUPABASE_URL = Some (js ''https://x.supabase.co''),
      SUPABASE_SERVICE_ROLE_KEY = Some (js ''s'')\<rparr>
     (\<lambda>k. StatusOk (Values [1, 0])) [] (js ''price'')
     = (Inl (js ''GEMINI_API_KEY is required''), [])
   \<and> retrieveContext createClient_http
     \<lparr>GEMINI_API_KEY = None, SUPABASE_URL = Some (js ''https://x.supabase.co''),
      SUPABASE_SERVICE_ROLE_KEY = Some (js ''s'')\<rparr>
     (\<lambda>k. StatusOk (Values [1, 0]))
     \<lparr>rpc_match_documents = (\<lambda>e t k. PgError (js ''no function'')),
      select_document_chunks = (\<lambda>k. PgData (Some [js ''x'', js ''y'']))\<rparr>
     [] [] (js ''price'') 5
     = (Inr \<lparr>rag_context = [], rag_chunks = 0, rag_source = None,
              rag_error = Some (js ''GEMINI_API_KEY is required'')\<rparr>, [], [])
   \<and> generateQueryEmbedding
     \<lparr>GEMINI_API_KEY = Some (js ''g''), SUPABASE_URL = Some (js ''https://x.supabase.co''),
      SUPABASE_SERVICE_ROLE_KEY = Some (js ''s'')\<rparr>
     (\<lambda>k. StatusOk (Values [1, 0])) [] (js ''price'')
     = (Inr (Some [1, 0]), [js ''price''])
   \<and> createServiceClient createClient_http
     \<lparr>GEMINI_API_KEY = Some (js ''g''), SUPABASE_URL = Some (js ''https://x.supabase.co''),
      SUPABASE_SERVICE_ROLE_KEY = Some (js ''s'')\<rparr> = Inr ()
   \<and> retrieveContext createClient_http
     \<lparr>GEMINI_API_KEY = Some (js ''g''), SUPABASE_URL = Some (js ''https://x.supabase.co''),
      SUPABASE_SERVICE_ROLE_KEY = Some (js ''s'')\<rparr>
     (\<lambda>k. StatusOk (Values [1, 0]))
     \<lparr>rpc_match_documents = (\<lambda>e t k. PgError (js ''no function'')),
      select_document_chunks = (\<lambda>k. PgData (Some [js ''x'', js ''y'']))\<rparr>
     [] [] (js ''price'') 5
     = (Inr \<lparr>rag_context = js ''x'' @ [10, 10] @ js ''---'' @ [10, 10] @ js ''y'',
              rag_chunks = 2, rag_source = Some (js ''fallback''), rag_error = None\<rparr>,
        [js ''price''],
        [RpcMatchDocuments (Some [1, 0]) (1 / 2) 5, SelectDocumentChunks 5])"
proof -
  let ?nokey = "\<lparr>GEMINI_API_KEY = None, SUPABASE_URL = Some (js ''https://x.supabase.co''),
      SUPABASE_SERVICE_ROLE_KEY = Some (js ''s'')\<rparr>"
  let ?key = "\<lparr>GEMINI_API_KEY = Some (js ''g''), SUPABASE_URL = Some (js ''https://x.supabase.co''),
      SUPABASE_SERVICE_ROLE_KEY = Some (js ''s'')\<rparr>"
  let ?net = "\<lambda>k :: nat. StatusOk (Values [1, 0])"
  let ?db = "\<lparr>rpc_match_documents = (\<lambda>e t k. PgError (js ''no function'')),
      select_document_chunks = (\<lambda>k. PgData (Some [js ''x'', js ''y'']))\<rparr>"
  have a: "generateQueryEmbedding ?nokey ?net [] (js ''price'')
             = (Inl (js ''GEMINI_API_KEY is required''), [])"
    by (simp add: generateQueryEmbedding_def truthy_def)
  have b: "generateQueryEmbedding ?key ?net [] (js ''price'') = (Inr (Some [1, 0]), [js ''price''])"
    by (simp add: generateQueryEmbedding_def truthy_def js_def)
  have c: "createServiceClient createClient_http ?key = Inr ()"
    by (simp add: createServiceClient_def createClient_http_def truthy_def str_or_def js_def)
  have d: "rpc_match_documents ?db (Some [1, 0]) (1 / 2) 5 = PgError (js ''no function'')"
    by simp
  have e: "select_document_chunks ?db 5 = PgData (Some [js ''x'', js ''y''])"
    by simp
  have f: "context_of (Some [js ''x'', js ''y'']) = js ''x'' @ [10, 10] @ js ''---'' @ [10, 10] @ js ''y''"
    and g: "count_of (Some [js ''x'', js ''y'']) = 2"
    by (simp_all add: context_of_def count_of_def)
  from retrieveContext_degrades [of createClient_http ?nokey ?net ?db "[]" "[]" "js ''price''" 5
      "js ''GEMINI_API_KEY is required''" "[]"] a
  have first: "retrieveContext createClient_http ?nokey ?net ?db [] [] (js ''price'') 5
     = (Inr \<lparr>rag_context = [], rag_chunks = 0, rag_source = None,
              rag_error = Some (js ''GEMINI_API_KEY is required'')\<rparr>, [], [])"
    by blast
  from retrieveContext_degrades [of createClient_http ?key ?net ?db "[]" "[]" "js ''price''" 5
      _ "[js ''price'']" "Some [1, 0]" "js ''no function''" "Some [js ''x'', js ''y'']"]
    b c d e
  have "retrieveContext createClient_http ?key ?net ?db [] [] (js ''price'') 5
     = (Inr \<lparr>rag_context = context_of (Some [js ''x'', js ''y'']),
              rag_chunks = count_of (Some [js ''x'', js ''y'']),
              rag_source = Some (js ''fallback''), rag_error = None\<rparr>,
        [js ''price''],
        [] @ [RpcMatchDocuments (Some [1, 0]) (1 / 2) 5, SelectDocumentChunks 5])"
    by blast
  with f g have second: "retrieveContext createClient_http ?key ?net ?db [] [] (js ''price'') 5
     = (Inr \<lparr>rag_context = js ''x'' @ [10, 10] @ js ''---'' @ [10, 10] @ js ''y'',
              rag_chunks = 2, rag_source = Some (js ''fallback''), rag_error = None\<rparr>,
        [js ''price''],
        [RpcMatchDocuments (Some [1, 0]) (1 / 2) 5, SelectDocumentChunks 5])"
    by simp
  from a first b c second show ?thesis by blast
qed

text \<open>
  A URL that the client library does not accept: \<open>createClient\<close> throws, the error is
  caught, and the result is the error object, without a source tag and without a request
  to the database.
\<close>

lemma retrieveContext_invalid_url:
  "retrieveContext createClient_http
     \<lparr>GEMINI_API_KEY = Some (js ''g''), SUPABASE_URL = Some (js ''u''),
      SUPABASE_SERVICE_ROLE_KEY = Some (js ''s'')\<rparr>
     (\<lambda>k. StatusOk (Values [1, 0]))
     \<lparr>rpc_match_documents = (\<lambda>e t k. PgError (js ''no function'')),
      select_document_chunks = (\<lambda>k. PgData (Some [js ''x'', js ''y'']))\<rparr>
     [] [] (js ''price'') 5
   = (Inr \<lparr>rag_context = [], rag_chunks = 0, rag_source = None,
            rag_error = Some (js ''Invalid supabaseUrl: Must be a valid HTTP or HTTPS URL.'')\<rparr>,
      [js ''price''], [])"
proof -
  let ?key = "\<lparr>GEMINI_API_KEY = Some (js ''g''), SUPABASE_URL = Some (js ''u''),
      SUPABASE_SERVICE_ROLE_KEY = Some (js ''s'')\<rparr>"
  have emb: "generateQueryEmbedding ?key (\<lambda>k. StatusOk (Values [1, 0])) [] (js ''price'')
               = (Inr (Some [1, 0]), [js ''price''])"
    by (simp add: generateQueryEmbedding_def truthy_def js_def)
  have client: "createServiceClient createClient_http ?key
                  = Inl (js ''Invalid supabaseUrl: Must be a valid HTTP or HTTPS URL.'')"
    by (simp add: createServiceClient_def createClient_http_def truthy_def str_or_def)
       (simp add: js_def)
  show ?thesis
    by (simp add: retrieveContext_def retrieveContext_try_no_client [OF emb client]
        retrieval_error_def)
qed

text \<open>
  Claim C10. The fallback read is \<open>select_document_chunks db topK\<close>: it is asked of the
  database with the limit only. So two runs that return the source tag \<open>fallback\<close>
  against the same database and with the same limit return the same context and the same
  chunk count, whatever the two queries, the environment and the network are.
\<close>

theorem fallback_ignores_query:
  assumes "retrieveContext createClient1 penv1 respond1 db sent1 asked1 query1 topK
             = (Inr r1, s1, a1)"
      and "rag_source r1 = Some (js ''fallback'')"
      and "retrieveContext createClient2 penv2 respond2 db sent2 asked2 query2 topK
             = (Inr r2, s2, a2)"
      and "rag_source r2 = Some (js ''fallback'')"
  shows "rag_context r1 = rag_context r2 \<and> rag_chunks r1 = rag_chunks r2"
proof -
  from retrieveContext_source_fallback [OF assms(1,2)]
  obtain d1 where d1: "select_document_chunks db topK = PgData d1"
    "rag_context r1 = context_of d1" "rag_chunks r1 = count_of d1"
    by blast
  from retrieveContext_source_fallback [OF assms(3,4)]
  obtain d2 where d2: "select_document_chunks db topK = PgData d2"
    "rag_context r2 = context_of d2" "rag_chunks r2 = count_of d2"
    by blast
  from d1(1) d2(1) have "d1 = d2" by simp
  with d1 d2 show ?thesis by simp
qed

theorem fallback_ignores_query_witness:
  "retrieveContext createClient_http
     \<lparr>GEMINI_API_KEY = Some (js ''g''), SUPABASE_URL = Some (js ''https://x.supabase.co''),
      SUPABASE_SERVICE_ROLE_KEY = Some (js ''s'')\<rparr>
     (\<lambda>k. StatusOk (Values [1, 0]))
     \<lparr>rpc_match_documents = (\<lambda>e t k. PgError (js ''no function'')),
      select_document_chunks = (\<lambda>k. PgData (Some [js ''x'', js ''y'']))\<rparr>
     [] [] (js ''price'') 5
     = (Inr \<lparr>rag_context = js ''x'' @ [10, 10] @ js ''---'' @ [10, 10] @ js ''y'',
              rag_chunks = 2, rag_source = Some (js ''fallback''), rag_error = None\<rparr>,
        [js ''price''],
        [RpcMatchDocuments (Some [1, 0]) (1 / 2) 5, SelectDocumentChunks 5])
   \<and> retrieveContext createClient_http
     \<lparr>GEMINI_API_KEY = Some (js ''g''), SUPABASE_URL = Some (js ''https://x.supabase.co''),
      SUPABASE_SERVICE_ROLE_KEY = Some (js ''s'')\<rparr>
     (\<lambda>k. StatusOk (Values [0, 1]))
     \<lparr>rpc_match_documents = (\<lambda>e t k. PgError (js ''no function'')),
      select_document_chunks = (\<lambda>k. PgData (Some [js ''x'', js ''y'']))\<rparr>
     [js ''price''] [] (js ''refund policy'') 5
     = (Inr \<lparr>rag_context = js ''x'' @ [10, 10] @ js ''---'' @ [10, 10] @ js ''y'',
              rag_chunks = 2, rag_source = Some (js ''fallback''), rag_error = None\<rparr>,
        [js ''price'', js ''refund policy''],
        [RpcMatchDocuments (Some [0, 1]) (1 / 2) 5, SelectDocumentChunks 5])
   \<and> rag_context \<lparr>rag_context = js ''x'' @ [10, 10] @ js ''---'' @ [10, 10] @ js ''y'',
              rag_chunks = 2, rag_source = Some (js ''fallback''), rag_error = None\<rparr>
     = js ''x'' @ [10, 10] @ js ''---'' @ [10, 10] @ js ''y''"
proof -
  let ?key = "\<lparr>GEMINI_API_KEY = Some (js ''g''), SUPABASE_URL = Some (js ''https://x.supabase.co''),
      SUPABASE_SERVICE_ROLE_KEY = Some (js ''s'')\<rparr>"
  let ?db = "\<lparr>rpc_match_documents = (\<lambda>e t k. PgError (js ''no function'')),
      select_document_chunks = (\<lambda>k. PgData (Some [js ''x'', js ''y'']))\<rparr>"
  let ?r = "\<lparr>rag_context = js ''x'' @ [10, 10] @ js ''---'' @ [10, 10] @ js ''y'', rag_chunks = 2,
         rag_source = Some (js ''fallback''), rag_error = None\<rparr>"
  have client: "createServiceClient createClient_http ?key = Inr ()"
    by (simp add: createServiceClient_def createClient_http_def truthy_def str_or_def js_def)
  have emb1: "generateQueryEmbedding ?key (\<lambda>k. StatusOk (Values [1, 0])) [] (js ''price'')
                = (Inr (Some [1, 0]), [js ''price''])"
    and emb2: "generateQueryEmbedding ?key (\<lambda>k. StatusOk (Values [0, 1])) [js ''price'']
                (js ''refund policy'') = (Inr (Some [0, 1]), [js ''price'', js ''refund policy''])"
    by (simp_all add: generateQueryEmbedding_def truthy_def js_def)
  have one: "retrieveContext createClient_http ?key (\<lambda>k. StatusOk (Values [1, 0])) ?db [] []
               (js ''price'') 5
             = (Inr ?r, [js ''price''],
                [RpcMatchDocuments (Some [1, 0]) (1 / 2) 5, SelectDocumentChunks 5])"
    by (simp add: retrieveContext_def
        retrieveContext_try_fallback [OF emb1 client, of ?db 5 "js ''no function''"
          "Some [js ''x'', js ''y'']"] context_of_def count_of_def)
  have two: "retrieveContext createClient_http ?key (\<lambda>k. StatusOk (Values [0, 1])) ?db
               [js ''price''] [] (js ''refund policy'') 5
             = (Inr ?r, [js ''price'', js ''refund policy''],
                [RpcMatchDocuments (Some [0, 1]) (1 / 2) 5, SelectDocumentChunks 5])"
    by (simp add: retrieveContext_def
        retrieveContext_try_fallback [OF emb2 client, of ?db 5 "js ''no function''"
          "Some [js ''x'', js ''y'']"] context_of_def count_of_def)
  have src: "rag_source ?r = Some (js ''fallback'')" by simp
  from fallback_ignores_query [OF one src two src] one two show ?thesis by simp
qed

end
